theory Spec2Isabelle
  imports
    Complex_Main
    "HOL-Library.Char_ord"
    "HOL-Library.List_Lexorder"
    "HOL-Library.Product_Lexorder"
    "HOL-Library.Multiset"
begin

chapter \<open>NERIST One backend: a model of \<^verbatim>\<open>nerist_backend.js\<close>\<close>

text \<open>
  The backend is one JavaScript class, \<^verbatim>\<open>NERISTBackend\<close>, whose methods read and
  write IndexedDB object stores and \<^verbatim>\<open>localStorage\<close>.  Every method is modelled as a
  function from the state of the stores to a result and the state afterwards.  A thrown
  \<^verbatim>\<open>Error\<close> is the left summand of the result; the state returned with it holds the
  writes made before the throw.  The clock, the random source and the user agent are read
  from an explicit environment.
\<close>

section \<open>JavaScript values\<close>

subsection \<open>Text\<close>

text \<open>
  Text that the code only copies, compares and concatenates (names, statuses, dates) is a
  \<^typ>\<open>string\<close>.  A password and the id of a user are the texts whose characters the code
  inspects: they are passed to \<^verbatim>\<open>btoa\<close>, which throws on a UTF-16 code unit above 255.
  They are therefore lists of code units.
\<close>

type_synonym code_units = "nat list"

definition utf16 :: "string \<Rightarrow> code_units" where
  "utf16 s = map of_char s"

text \<open>Truthiness of an optional text: \<^verbatim>\<open>undefined\<close>, \<^verbatim>\<open>null\<close> and \<^verbatim>\<open>''\<close> are falsy.\<close>

definition truthy :: "'a list option \<Rightarrow> bool" where
  "truthy v = (case v of None \<Rightarrow> False | Some s \<Rightarrow> s \<noteq> [])"

text \<open>\<^verbatim>\<open>a || b\<close> on optional text with a text default.\<close>

definition or_else :: "'a list option \<Rightarrow> 'a list \<Rightarrow> 'a list" where
  "or_else v d = (if truthy v then the v else d)"

text \<open>
  Decimal rendering of a whole number in a template literal, as for \<^verbatim>\<open>${Date.now()}\<close>.
  It is the rendering of JavaScript for a magnitude below \<open>10 ^ 21\<close>, which every time
  value has.
\<close>

definition digit :: "nat \<Rightarrow> char" where
  "digit n = char_of (48 + n)"

function dec :: "nat \<Rightarrow> string" where
  "dec n = (if n < 10 then [digit n] else dec (n div 10) @ [digit (n mod 10)])"
  by pat_completeness auto
termination
  by (relation "measure (\<lambda>n. n)") auto

definition decimal :: "int \<Rightarrow> string" where
  "decimal i = (if i < 0 then CHR ''-'' # dec (nat (- i)) else dec (nat i))"

subsection \<open>Errors\<close>

text \<open>
  One constructor for each message the modelled methods throw, for the
  \<^verbatim>\<open>InvalidCharacterError\<close> of \<^verbatim>\<open>btoa\<close> and for the \<^verbatim>\<open>ConstraintError\<close> of a
  \<^verbatim>\<open>put\<close> that breaks a unique index.
\<close>

datatype error =
    MissingRequiredFields
  | UsernameAlreadyExists
  | EmailAlreadyRegistered
  | UserNotFound
  | AccountDeactivated
  | InvalidPassword
  | CurrentPasswordIncorrect
  | NotAuthenticated
  | MenuNotFound
  | MealNotActive
  | AlreadyBooked
  | OpportunityNotFound
  | DeadlinePassed
  | AlreadyApplied
  | InvalidCharacterError
  | ConstraintError

subsection \<open>\<^verbatim>\<open>btoa\<close>\<close>

definition b64chars :: string where
  "b64chars = ''ABCDEFGHIJKLMNOPQRSTUVWXYZabcdefghijklmnopqrstuvwxyz0123456789+/''"

definition b64 :: "nat \<Rightarrow> char" where
  "b64 n = b64chars ! n"

fun encode :: "nat list \<Rightarrow> string" where
  "encode [] = []"
| "encode [a] = [b64 (a div 4), b64 ((a mod 4) * 16), CHR ''='', CHR ''='']"
| "encode [a, b] =
     [b64 (a div 4), b64 ((a mod 4) * 16 + b div 16), b64 ((b mod 16) * 4), CHR ''='']"
| "encode (a # b # c # r) =
     [b64 (a div 4), b64 ((a mod 4) * 16 + b div 16),
      b64 ((b mod 16) * 4 + c div 64), b64 (c mod 64)] @ encode r"

definition btoa :: "code_units \<Rightarrow> error + string" where
  "btoa s = (if \<exists>c \<in> set s. 255 < c then Inl InvalidCharacterError else Inr (encode s))"

subsection \<open>Numbers\<close>

text \<open>
  A JavaScript number is an IEEE 754 double.  A finite double is modelled by its exact
  value, a rational; \<open>fl\<close> rounds a rational to the nearest double, ties to even, with
  the 53-bit significand and the subnormal range of the format.  Overflow to
  \<^verbatim>\<open>Infinity\<close> (a magnitude of \<open>2 ^ 1024\<close> and above) is outside the model.
\<close>

function bit_length :: "int \<Rightarrow> nat" where
  "bit_length n = (if n \<le> 0 then 0 else Suc (bit_length (n div 2)))"
  by pat_completeness auto
termination
  by (relation "measure nat") auto

definition ilog2 :: "rat \<Rightarrow> int" where
  "ilog2 x = (let (p, q) = quotient_of \<bar>x\<bar>;
                  e0 = int (bit_length p) - int (bit_length q)
              in if 2 powi e0 \<le> \<bar>x\<bar> then e0 else e0 - 1)"

definition roundTiesToEven :: "rat \<Rightarrow> int" where
  "roundTiesToEven x =
     (let n = \<lfloor>x\<rfloor>; r = x - of_int n
      in if r < 1 / 2 then n else if 1 / 2 < r then n + 1 else if even n then n else n + 1)"

definition ulp :: "rat \<Rightarrow> rat" where
  "ulp x = 2 powi (max (ilog2 x) (- 1022) - 52)"

definition fl :: "rat \<Rightarrow> rat" where
  "fl x = (if x = 0 then 0 else of_int (roundTiesToEven (x / ulp x)) * ulp x)"

definition fadd :: "rat \<Rightarrow> rat \<Rightarrow> rat" where
  "fadd a b = fl (a + b)"

definition fmul :: "rat \<Rightarrow> rat \<Rightarrow> rat" where
  "fmul a b = fl (a * b)"

definition fdiv :: "rat \<Rightarrow> rat \<Rightarrow> rat" where
  "fdiv a b = fl (a / b)"

text \<open>\<^verbatim>\<open>Math.round\<close>: the nearest integer, a tie going up.\<close>

definition Math_round :: "rat \<Rightarrow> int" where
  "Math_round x = \<lfloor>x + 1 / 2\<rfloor>"

text \<open>
  \<^verbatim>\<open>x.toFixed(f)\<close> is the decimal text of \<open>n / 10 ^ f\<close> for the integer \<open>n\<close> nearest to
  \<open>x * 10 ^ f\<close>, the larger \<open>n\<close> at a tie, computed on the magnitude with the sign put in
  front.  The text is modelled by the scaled integer \<open>n\<close> with its sign.
\<close>

definition toFixed :: "nat \<Rightarrow> rat \<Rightarrow> int" where
  "toFixed f x = (if x < 0 then - \<lfloor>- x * 10 ^ f + 1 / 2\<rfloor> else \<lfloor>x * 10 ^ f + 1 / 2\<rfloor>)"


section \<open>Object stores\<close>

text \<open>
  An object store is the list of its records in the order of their primary keys, which
  is the order \<^verbatim>\<open>getAll\<close> returns them in.
\<close>

definition getObject :: "('r \<Rightarrow> 'k) \<Rightarrow> 'r list \<Rightarrow> 'k \<Rightarrow> 'r option" where
  "getObject key xs k = find (\<lambda>r. key r = k) xs"

definition putObject :: "('r \<Rightarrow> 'k::linorder) \<Rightarrow> 'r list \<Rightarrow> 'r \<Rightarrow> 'r list" where
  "putObject key xs r =
     (if \<exists>x \<in> set xs. key x = key r
      then map (\<lambda>x. if key x = key r then r else x) xs
      else insort_key key r xs)"

text \<open>
  \<^verbatim>\<open>getAllObjects(storeName, indexName, query)\<close>.  With an index and a truthy query the
  matching records come in primary-key order; with an index and a falsy query the branch
  \<^verbatim>\<open>index.getAll()\<close> returns every record in the order of the index; without an index the
  whole store.  A call without an index is written with the type of an index that is
  not there.
\<close>

definition getAllObjects ::
  "'r list \<Rightarrow> ('r \<Rightarrow> 'k::linorder list) option \<Rightarrow> 'k list option \<Rightarrow> 'r list" where
  "getAllObjects xs indexName query =
     (case indexName of
        None \<Rightarrow> xs
      | Some ix \<Rightarrow>
          if truthy query then filter (\<lambda>r. ix r = the query) xs
          else sort_key ix xs)"

text \<open>\<^verbatim>\<open>xs[0] || null\<close>.\<close>

definition first :: "'a list \<Rightarrow> 'a option" where
  "first xs = (case xs of [] \<Rightarrow> None | x # _ \<Rightarrow> Some x)"

section \<open>Records of the stores\<close>

text \<open>
  A field that the code parses with \<^verbatim>\<open>new Date(...)\<close> before comparing it is modelled by
  the instant it denotes, in milliseconds since the epoch; where the field may be missing
  or unparseable (the comparison with it is then false) it is optional.  A time stamp that
  is only stored is the ISO text.
\<close>

record emailPreferences =
  ep_attendance :: bool
  ep_mess :: bool
  ep_career :: bool
  ep_alerts :: bool

record notificationSettings =
  pushEnabled :: bool
  soundEnabled :: bool
  vibrationEnabled :: bool

text \<open>A user as the methods return it, \<^verbatim>\<open>const { password, ...userWithoutPassword } = user\<close>.\<close>

record public_user =
  u_id :: code_units
  u_username :: string
  u_email :: string
  u_name :: string
  u_role :: string
  u_department :: string
  u_year :: string
  u_avatarColor :: string
  u_emailPreferences :: "emailPreferences option"
  u_notificationSettings :: "notificationSettings option"
  u_createdAt :: string
  u_lastLogin :: "string option"
  u_isActive :: bool

text \<open>A user as the \<^verbatim>\<open>users\<close> store holds it.\<close>

record user = public_user +
  u_password :: string

definition withoutPassword :: "user \<Rightarrow> public_user" where
  "withoutPassword u = public_user.truncate u"

record session =
  s_userId :: code_units
  s_username :: string
  s_role :: string
  s_token :: string
  s_createdAt :: string
  s_expiresAt :: int

record activity =
  l_id :: nat
  l_userId :: code_units
  l_action :: string
  l_details :: string
  l_timestamp :: int
  l_ip :: string
  l_userAgent :: string

record attendance_record =
  at_id :: nat
  at_studentId :: string
  at_date :: int
  at_subject :: string
  at_status :: string
  at_time :: string
  at_markedBy :: string
  at_timestamp :: string
  at_semester :: string
  at_branch :: string
  at_remarks :: string

record booking =
  b_studentId :: string
  b_bookedAt :: string

record feedback =
  f_studentId :: string
  f_rating :: rat
  f_comment :: string
  f_submittedAt :: string

text \<open>
  \<open>m_bookedCount\<close> and \<open>m_averageRating\<close> are absent from a menu that \<^verbatim>\<open>saveMessMenu\<close>
  wrote.  \<open>m_averageRating\<close> holds the text \<^verbatim>\<open>toFixed(1)\<close> returned, as tenths.
\<close>

record menu =
  m_id :: string
  m_date :: string
  m_mealType :: string
  m_items :: "string list"
  m_predictedDemand :: nat
  m_active :: bool
  m_createdBy :: string
  m_createdAt :: string
  m_updatedAt :: string
  m_bookings :: "booking list"
  m_feedback :: "feedback list"
  m_bookedCount :: "nat option"
  m_averageRating :: "int option"

record mealBooking =
  mb_id :: string
  mb_date :: string
  mb_mealType :: string
  mb_studentId :: string
  mb_bookedAt :: string

record opportunity =
  o_id :: nat
  o_title :: string
  o_type :: string
  o_deadline :: "int option"
  o_status :: string
  o_eligibleDepartments :: "string list option"
  o_applicants :: "nat option"
  o_views :: nat
  o_createdAt :: string
  o_createdBy :: string

record application =
  ap_id :: nat
  ap_studentId :: code_units
  ap_studentName :: string
  ap_opportunityId :: nat
  ap_opportunityTitle :: string
  ap_appliedDate :: string
  ap_status :: string
  ap_studentData :: string
  ap_lastUpdated :: string

record subject =
  sj_name :: string
  sj_grade :: "string option"
  sj_credits :: "rat option"

record result =
  r_id :: string
  r_studentId :: string
  r_semester :: int
  r_subjects :: "subject list option"
  r_sgpa :: rat
  r_creditsEarned :: rat
  r_totalCredits :: rat
  r_publishedDate :: string
  r_publishedBy :: string
  r_lastUpdated :: string

record alert =
  al_id :: nat
  al_title :: string
  al_message :: string
  al_priority :: string
  al_expiry :: "int option"
  al_isActive :: bool
  al_views :: nat
  al_createdAt :: int
  al_createdBy :: string

record setting =
  st_key :: string
  st_value :: string
  st_updatedAt :: string

section \<open>State and environment\<close>

text \<open>
  The object stores the modelled methods touch, the key generators of the stores declared
  with \<^verbatim>\<open>autoIncrement\<close>, the field \<^verbatim>\<open>this.currentUser\<close>, and the two
  \<^verbatim>\<open>localStorage\<close> items.
\<close>

record backend =
  users :: "user list"
  attendance :: "attendance_record list"
  messMenu :: "menu list"
  mealBookings :: "mealBooking list"
  careerOpportunities :: "opportunity list"
  studentApplications :: "application list"
  results :: "result list"
  campusAlerts :: "alert list"
  systemSettings :: "setting list"
  activityLog :: "activity list"
  studentApplications_keygen :: nat
  activityLog_keygen :: nat
  currentUser :: "public_user option"
  nerist_session :: "session option"
  nerist_token :: "string option"

text \<open>
  What a method reads from outside the stores: \<^verbatim>\<open>Date.now()\<close>, the text of
  \<^verbatim>\<open>new Date().toISOString()\<close>, the text of \<^verbatim>\<open>Math.random().toString(36)\<close>, and
  \<^verbatim>\<open>navigator.userAgent\<close>.
\<close>

record env =
  now :: int
  nowISO :: string
  random36 :: string
  userAgent :: string

section \<open>Activity log and session\<close>

definition logActivity ::
  "env \<Rightarrow> code_units \<Rightarrow> string \<Rightarrow> string \<Rightarrow> backend \<Rightarrow> backend" where
  "logActivity e userId action details s =
     (let logEntry = \<lparr> l_id = activityLog_keygen s, l_userId = userId, l_action = action,
                        l_details = details, l_timestamp = now e, l_ip = ''local'',
                        l_userAgent = userAgent e \<rparr>
      in s \<lparr> activityLog := putObject l_id (activityLog s) logEntry,
             activityLog_keygen := Suc (activityLog_keygen s) \<rparr>)"

definition hashPassword :: "code_units \<Rightarrow> error + string" where
  "hashPassword password = btoa (password @ utf16 ''nerist_salt'')"

text \<open>\<^verbatim>\<open>btoa(`${userId}_${timestamp}_${random}`).replace(/=/g, '')\<close>\<close>

definition generateToken :: "env \<Rightarrow> code_units \<Rightarrow> error + string" where
  "generateToken e userId =
     (case btoa (userId @ utf16 (''_'' @ decimal (now e) @ ''_'' @ take 13 (drop 2 (random36 e)))) of
        Inl err \<Rightarrow> Inl err
      | Inr t \<Rightarrow> Inr (filter (\<lambda>c. c \<noteq> CHR ''='') t))"

definition createSession :: "env \<Rightarrow> user \<Rightarrow> backend \<Rightarrow> (error + session) \<times> backend" where
  "createSession e u s =
     (case generateToken e (u_id u) of
        Inl err \<Rightarrow> (Inl err, s)
      | Inr t \<Rightarrow>
          let sess = \<lparr> s_userId = u_id u, s_username = u_username u, s_role = u_role u,
                       s_token = t, s_createdAt = nowISO e,
                       s_expiresAt = now e + 24 * 60 * 60 * 1000 \<rparr>
          in (Inr sess, s \<lparr> nerist_session := Some sess, nerist_token := Some t \<rparr>))"

section \<open>User management\<close>

definition getUserById :: "backend \<Rightarrow> code_units \<Rightarrow> user option" where
  "getUserById s userId = getObject u_id (users s) userId"

definition getUserByUsername :: "backend \<Rightarrow> string \<Rightarrow> user option" where
  "getUserByUsername s username =
     first (getAllObjects (users s) (Some u_username) (Some username))"

definition getUserByEmail :: "backend \<Rightarrow> string \<Rightarrow> user option" where
  "getUserByEmail s email = first (getAllObjects (users s) (Some u_email) (Some email))"

text \<open>
  \<^verbatim>\<open>putObject('users', user)\<close>.  The store declares the indexes \<^verbatim>\<open>username\<close> and
  \<^verbatim>\<open>email\<close> unique, so the put is refused when another record holds the same value.
\<close>

definition putUser :: "user list \<Rightarrow> user \<Rightarrow> error + user list" where
  "putUser us u =
     (if \<exists>x \<in> set us. u_id x \<noteq> u_id u \<and> (u_username x = u_username u \<or> u_email x = u_email u)
      then Inl ConstraintError
      else Inr (putObject u_id us u))"

record userData =
  d_username :: "string option"
  d_password :: "code_units option"
  d_email :: "string option"
  d_role :: "string option"
  d_name :: "string option"
  d_department :: "string option"
  d_year :: "string option"
  d_avatarColor :: "string option"
  d_emailPreferences :: "emailPreferences option"
  d_notificationSettings :: "notificationSettings option"

definition registerUser :: "env \<Rightarrow> userData \<Rightarrow> backend \<Rightarrow> (error + public_user) \<times> backend" where
  "registerUser e userData s =
     (if \<not> truthy (d_username userData) \<or> \<not> truthy (d_password userData) \<or>
         \<not> truthy (d_email userData) \<or> \<not> truthy (d_role userData)
      then (Inl MissingRequiredFields, s)
      else if getUserByUsername s (the (d_username userData)) \<noteq> None
      then (Inl UsernameAlreadyExists, s)
      else if getUserByEmail s (the (d_email userData)) \<noteq> None
      then (Inl EmailAlreadyRegistered, s)
      else
        let userId = utf16 (''user_'' @ decimal (now e) @ ''_'' @ take 9 (drop 2 (random36 e)))
        in case hashPassword (the (d_password userData)) of
             Inl err \<Rightarrow> (Inl err, s)
           | Inr hashed \<Rightarrow>
               let u = \<lparr> u_id = userId,
                         u_username = the (d_username userData),
                         u_email = the (d_email userData),
                         u_name = or_else (d_name userData) (the (d_username userData)),
                         u_role = the (d_role userData),
                         u_department = or_else (d_department userData) [],
                         u_year = or_else (d_year userData) [],
                         u_avatarColor = or_else (d_avatarColor userData) ''primary'',
                         u_emailPreferences = Some (case d_emailPreferences userData of
                            Some p \<Rightarrow> p
                          | None \<Rightarrow> \<lparr> ep_attendance = True, ep_mess = True,
                                      ep_career = True, ep_alerts = True \<rparr>),
                         u_notificationSettings = Some (case d_notificationSettings userData of
                            Some n \<Rightarrow> n
                          | None \<Rightarrow> \<lparr> pushEnabled = True, soundEnabled = True,
                                      vibrationEnabled = True \<rparr>),
                         u_createdAt = nowISO e,
                         u_lastLogin = None,
                         u_isActive = True,
                         u_password = hashed \<rparr>
               in case putUser (users s) u of
                    Inl err \<Rightarrow> (Inl err, s)
                  | Inr us \<Rightarrow>
                      (Inr (withoutPassword u),
                       logActivity e userId ''register'' ''User registered'' (s \<lparr> users := us \<rparr>)))"

definition login :: "env \<Rightarrow> string \<Rightarrow> code_units \<Rightarrow> backend \<Rightarrow> (error + public_user) \<times> backend" where
  "login e username password s =
     (case getUserByUsername s username of
        None \<Rightarrow> (Inl UserNotFound, s)
      | Some u0 \<Rightarrow>
          if \<not> u_isActive u0 then (Inl AccountDeactivated, s)
          else case hashPassword password of
            Inl err \<Rightarrow> (Inl err, s)
          | Inr hashedPassword \<Rightarrow>
              if u_password u0 \<noteq> hashedPassword then (Inl InvalidPassword, s)
              else
                let u = u0 \<lparr> u_lastLogin := Some (nowISO e) \<rparr>
                in case putUser (users s) u of
                     Inl err \<Rightarrow> (Inl err, s)
                   | Inr us \<Rightarrow>
                       (case createSession e u (s \<lparr> users := us \<rparr>) of
                          (Inl err, s1) \<Rightarrow> (Inl err, s1)
                        | (Inr sess, s1) \<Rightarrow>
                            (Inr (withoutPassword u),
                             (logActivity e (u_id u) ''login'' ''User logged in'' s1)
                               \<lparr> currentUser := Some (withoutPassword u) \<rparr>)))"

text \<open>
  The update set of \<^verbatim>\<open>updateUserProfile\<close>: for each field of a user, the value the caller
  supplies, if any.
\<close>

record updates =
  upd_id :: "code_units option"
  upd_username :: "string option"
  upd_role :: "string option"
  upd_createdAt :: "string option"
  upd_email :: "string option"
  upd_name :: "string option"
  upd_department :: "string option"
  upd_year :: "string option"
  upd_avatarColor :: "string option"
  upd_emailPreferences :: "emailPreferences option"
  upd_notificationSettings :: "notificationSettings option"
  upd_lastLogin :: "string option"
  upd_isActive :: "bool option"
  upd_password :: "string option"

text \<open>\<^verbatim>\<open>if (updates[field]) { delete updates[field]; }\<close> for one restricted field.\<close>

definition dropRestricted :: "'a list option \<Rightarrow> 'a list option" where
  "dropRestricted v = (if truthy v then None else v)"

definition restrict :: "updates \<Rightarrow> updates" where
  "restrict upd =
     upd \<lparr> upd_id := dropRestricted (upd_id upd),
           upd_username := dropRestricted (upd_username upd),
           upd_role := dropRestricted (upd_role upd),
           upd_createdAt := dropRestricted (upd_createdAt upd) \<rparr>"

text \<open>\<^verbatim>\<open>{ ...user, ...updates }\<close>\<close>

definition spread :: "user \<Rightarrow> updates \<Rightarrow> user" where
  "spread u upd =
     \<lparr> u_id = (case upd_id upd of Some v \<Rightarrow> v | None \<Rightarrow> u_id u),
       u_username = (case upd_username upd of Some v \<Rightarrow> v | None \<Rightarrow> u_username u),
       u_email = (case upd_email upd of Some v \<Rightarrow> v | None \<Rightarrow> u_email u),
       u_name = (case upd_name upd of Some v \<Rightarrow> v | None \<Rightarrow> u_name u),
       u_role = (case upd_role upd of Some v \<Rightarrow> v | None \<Rightarrow> u_role u),
       u_department = (case upd_department upd of Some v \<Rightarrow> v | None \<Rightarrow> u_department u),
       u_year = (case upd_year upd of Some v \<Rightarrow> v | None \<Rightarrow> u_year u),
       u_avatarColor = (case upd_avatarColor upd of Some v \<Rightarrow> v | None \<Rightarrow> u_avatarColor u),
       u_emailPreferences =
         (case upd_emailPreferences upd of Some v \<Rightarrow> Some v | None \<Rightarrow> u_emailPreferences u),
       u_notificationSettings =
         (case upd_notificationSettings upd of Some v \<Rightarrow> Some v
          | None \<Rightarrow> u_notificationSettings u),
       u_createdAt = (case upd_createdAt upd of Some v \<Rightarrow> v | None \<Rightarrow> u_createdAt u),
       u_lastLogin = (case upd_lastLogin upd of Some v \<Rightarrow> Some v | None \<Rightarrow> u_lastLogin u),
       u_isActive = (case upd_isActive upd of Some v \<Rightarrow> v | None \<Rightarrow> u_isActive u),
       u_password = (case upd_password upd of Some v \<Rightarrow> v | None \<Rightarrow> u_password u) \<rparr>"

definition updateUserProfile ::
  "env \<Rightarrow> code_units \<Rightarrow> updates \<Rightarrow> backend \<Rightarrow> (error + public_user) \<times> backend" where
  "updateUserProfile e userId upd s =
     (case getUserById s userId of
        None \<Rightarrow> (Inl UserNotFound, s)
      | Some u \<Rightarrow>
          let updatedUser = spread u (restrict upd)
          in case putUser (users s) updatedUser of
               Inl err \<Rightarrow> (Inl err, s)
             | Inr us \<Rightarrow>
                 (Inr (withoutPassword updatedUser),
                  logActivity e userId ''update_profile'' ''Profile updated''
                    (s \<lparr> users := us \<rparr>)))"

definition changePassword ::
  "env \<Rightarrow> code_units \<Rightarrow> code_units \<Rightarrow> code_units \<Rightarrow> backend \<Rightarrow> (error + bool) \<times> backend"
  where
  "changePassword e userId oldPassword newPassword s =
     (case getUserById s userId of
        None \<Rightarrow> (Inl UserNotFound, s)
      | Some u0 \<Rightarrow>
          (case hashPassword oldPassword of
             Inl err \<Rightarrow> (Inl err, s)
           | Inr oldHash \<Rightarrow>
               if u_password u0 \<noteq> oldHash then (Inl CurrentPasswordIncorrect, s)
               else case hashPassword newPassword of
                 Inl err \<Rightarrow> (Inl err, s)
               | Inr newHash \<Rightarrow>
                   let u = u0 \<lparr> u_password := newHash \<rparr>
                   in case putUser (users s) u of
                        Inl err \<Rightarrow> (Inl err, s)
                      | Inr us \<Rightarrow>
                          (Inr True,
                           logActivity e userId ''change_password'' ''Password changed''
                             (s \<lparr> users := us \<rparr>))))"

text \<open>
  The invariant IndexedDB keeps on the \<^verbatim>\<open>users\<close> store: one record for each primary key
  \<^verbatim>\<open>id\<close>, and the unique indexes \<^verbatim>\<open>username\<close> and \<^verbatim>\<open>email\<close>.
\<close>

definition users_ok :: "user list \<Rightarrow> bool" where
  "users_ok us \<longleftrightarrow>
     distinct (map u_id us) \<and> distinct (map u_username us) \<and> distinct (map u_email us)"

subsection \<open>Example data\<close>

text \<open>
  Two of the users \<^verbatim>\<open>seedInitialData\<close> installs, with the passwords \<^verbatim>\<open>demo123\<close> and
  \<^verbatim>\<open>admin123\<close> as \<^verbatim>\<open>hashPassword\<close> stores them.
\<close>

definition student_001 :: user where
  "student_001 =
     \<lparr> u_id = utf16 ''student_001'', u_username = ''NER20231045'',
       u_email = ''ankit.sharma@nerist.ac.in'', u_name = ''Ankit Sharma'',
       u_role = ''student'', u_department = ''Computer Science & Engineering'',
       u_year = ''3rd Year'', u_avatarColor = ''primary'',
       u_emailPreferences = Some \<lparr> ep_attendance = True, ep_mess = True,
                                   ep_career = True, ep_alerts = False \<rparr>,
       u_notificationSettings = Some \<lparr> pushEnabled = True, soundEnabled = True,
                                       vibrationEnabled = True \<rparr>,
       u_createdAt = ''2023-11-01T00:00:00.000Z'', u_lastLogin = None, u_isActive = True,
       u_password = ''ZGVtbzEyM25lcmlzdF9zYWx0'' \<rparr>"

definition admin_001 :: user where
  "admin_001 =
     \<lparr> u_id = utf16 ''admin_001'', u_username = ''admin'', u_email = ''admin@nerist.ac.in'',
       u_name = ''Admin User'', u_role = ''admin'', u_department = ''Administration'',
       u_year = ''Faculty'', u_avatarColor = ''secondary'',
       u_emailPreferences = None, u_notificationSettings = None,
       u_createdAt = ''2023-11-01T00:00:00.000Z'', u_lastLogin = None, u_isActive = True,
       u_password = ''YWRtaW4xMjNuZXJpc3Rfc2FsdA=='' \<rparr>"

definition empty_backend :: backend where
  "empty_backend =
     \<lparr> users = [], attendance = [], messMenu = [], mealBookings = [],
       careerOpportunities = [], studentApplications = [], results = [], campusAlerts = [],
       systemSettings = [], activityLog = [],
       studentApplications_keygen = 1, activityLog_keygen = 1,
       currentUser = None, nerist_session = None, nerist_token = None \<rparr>"

definition seeded :: backend where
  "seeded = empty_backend \<lparr> users := [admin_001, student_001] \<rparr>"

definition env0 :: env where
  "env0 = \<lparr> now = 1700000000000, nowISO = ''2023-11-14T22:13:20.000Z'',
            random36 = ''0.4fzyo82mvyr'', userAgent = ''Mozilla/5.0'' \<rparr>"

definition no_updates :: updates where
  "no_updates =
     \<lparr> upd_id = None, upd_username = None, upd_role = None, upd_createdAt = None,
       upd_email = None, upd_name = None, upd_department = None, upd_year = None,
       upd_avatarColor = None, upd_emailPreferences = None, upd_notificationSettings = None,
       upd_lastLogin = None, upd_isActive = None, upd_password = None \<rparr>"

definition no_userData :: userData where
  "no_userData =
     \<lparr> d_username = None, d_password = None, d_email = None, d_role = None, d_name = None,
       d_department = None, d_year = None, d_avatarColor = None,
       d_emailPreferences = None, d_notificationSettings = None \<rparr>"

definition seeded_deactivated :: backend where
  "seeded_deactivated =
     empty_backend \<lparr> users := [admin_001, student_001 \<lparr> u_isActive := False \<rparr>] \<rparr>"

text \<open>
  The seeded student under an id that begins with four Cyrillic letters, U+0441 and so on,
  as \<^verbatim>\<open>importData\<close> can store it.
\<close>

definition student_cyrillic :: user where
  "student_cyrillic = student_001 \<lparr> u_id := [1089, 1090, 1091, 1076] @ utf16 ''_001'' \<rparr>"

definition seeded_cyrillic :: backend where
  "seeded_cyrillic = empty_backend \<lparr> users := [admin_001, student_cyrillic] \<rparr>"

text \<open>A candidate whose password is the Cyrillic word of six letters, U+043F and so on.\<close>

definition ivan :: userData where
  "ivan = no_userData \<lparr> d_username := Some ''ivan'',
            d_password := Some [1087, 1072, 1088, 1086, 1083, 1100],
            d_email := Some ''ivan@nerist.ac.in'', d_role := Some ''student'' \<rparr>"

definition asha :: userData where
  "asha = no_userData \<lparr> d_username := Some ''asha'', d_password := Some (utf16 ''s3cret''),
            d_email := Some ''asha@nerist.ac.in'', d_role := Some ''student'' \<rparr>"

section \<open>Campus alerts\<close>






text \<open>
  The filter of \<^verbatim>\<open>getActiveAlerts\<close>:
  \<^verbatim>\<open>if (!alert.isActive) return false;
  if (alert.expiry && new Date(alert.expiry) < now) return false; return true;\<close>
\<close>

definition stillActive :: "int \<Rightarrow> alert \<Rightarrow> bool" where
  "stillActive t a =
     (if \<not> al_isActive a then False
      else (case al_expiry a of None \<Rightarrow> True | Some x \<Rightarrow> if x < t then False else True))"




section \<open>System settings and the background sync\<close>

definition setSystemSetting :: "env \<Rightarrow> string \<Rightarrow> string \<Rightarrow> backend \<Rightarrow> backend" where
  "setSystemSetting e k v s =
     s \<lparr> systemSettings :=
           putObject st_key (systemSettings s)
             \<lparr> st_key = k, st_value = v, st_updatedAt = nowISO e \<rparr> \<rparr>"

text \<open>
  The condition of the sweep,
  \<^verbatim>\<open>alert.expiry && new Date(alert.expiry) < now && alert.isActive\<close>.
\<close>

definition expired :: "int \<Rightarrow> alert \<Rightarrow> bool" where
  "expired t a = ((case al_expiry a of None \<Rightarrow> False | Some x \<Rightarrow> x < t) \<and> al_isActive a)"

text \<open>One turn of the loop \<^verbatim>\<open>for (const alert of alerts)\<close> on the store.\<close>

definition sweepAlert :: "int \<Rightarrow> alert list \<Rightarrow> alert \<Rightarrow> alert list" where
  "sweepAlert t store a =
     (if expired t a then putObject al_id store (a \<lparr> al_isActive := False \<rparr>) else store)"

text \<open>
  \<^verbatim>\<open>performBackgroundSync\<close>: the sweep over the alerts read at the start, the trimming of
  the activity log to its 1000 newest entries (the store is cleared and the kept entries
  are put back under their ids), and the \<^verbatim>\<open>last_sync\<close> setting.
\<close>

definition trimActivityLog :: "activity list \<Rightarrow> activity list" where
  "trimActivityLog activities =
     (if 1000 < length activities
      then foldl (putObject l_id) [] (take 1000 (sort_key (\<lambda>l. - l_timestamp l) activities))
      else activities)"

definition performBackgroundSync :: "env \<Rightarrow> backend \<Rightarrow> backend" where
  "performBackgroundSync e s =
     (let alerts = getAllObjects (campusAlerts s) (None :: (alert \<Rightarrow> string) option) None;
          s1 = s \<lparr> campusAlerts := foldl (sweepAlert (now e)) (campusAlerts s) alerts \<rparr>;
          s2 = s1 \<lparr> activityLog := trimActivityLog
                   (getAllObjects (activityLog s1) (None :: (activity \<Rightarrow> string) option) None) \<rparr>
      in setSystemSetting e ''last_sync'' (nowISO e) s2)"

subsection \<open>Example data\<close>

definition alert_exam :: alert where
  "alert_exam = \<lparr> al_id = 1, al_title = ''Exam schedule'', al_message = ''Mid-semester exams'',
      al_priority = ''medium'', al_expiry = Some 1700000000000, al_isActive = True, al_views = 3,
      al_createdAt = 1699000000000, al_createdBy = ''admin_001'' \<rparr>"

definition alert_water :: alert where
  "alert_water = \<lparr> al_id = 2, al_title = ''Water supply'', al_message = ''No water 2-4 pm'',
      al_priority = ''high'', al_expiry = Some 1699999999999, al_isActive = True, al_views = 0,
      al_createdAt = 1699500000000, al_createdBy = ''admin_001'' \<rparr>"

definition alert_fest :: alert where
  "alert_fest = \<lparr> al_id = 3, al_title = ''Fest'', al_message = ''Cultural fest'',
      al_priority = ''high'', al_expiry = None, al_isActive = True, al_views = 10,
      al_createdAt = 1699600000000, al_createdBy = ''admin_001'' \<rparr>"

definition with_alerts :: backend where
  "with_alerts = seeded \<lparr> campusAlerts := [alert_exam, alert_water, alert_fest] \<rparr>"




section \<open>Mess management\<close>

text \<open>
  \<^verbatim>\<open>putObject('messMenu', menu)\<close>.  The store declares the index \<^verbatim>\<open>date_meal\<close> on
  \<^verbatim>\<open>['date', 'mealType']\<close> unique.
\<close>

definition putMenu :: "menu list \<Rightarrow> menu \<Rightarrow> error + menu list" where
  "putMenu ms m =
     (if \<exists>x \<in> set ms. m_id x \<noteq> m_id m \<and> m_date x = m_date m \<and> m_mealType x = m_mealType m
      then Inl ConstraintError
      else Inr (putObject m_id ms m))"

text \<open>The invariant IndexedDB keeps on the \<^verbatim>\<open>messMenu\<close> store.\<close>

definition menus_ok :: "menu list \<Rightarrow> bool" where
  "menus_ok ms \<longleftrightarrow>
     distinct (map m_id ms) \<and> distinct (map (\<lambda>m. (m_date m, m_mealType m)) ms)"

definition bookMeal ::
  "env \<Rightarrow> string \<Rightarrow> string \<Rightarrow> string \<Rightarrow> backend \<Rightarrow> (error + menu) \<times> backend" where
  "bookMeal e date mealType studentId s =
     (let menuId = date @ ''_'' @ mealType
      in case getObject m_id (messMenu s) menuId of
           None \<Rightarrow> (Inl MenuNotFound, s)
         | Some menu \<Rightarrow>
             if \<not> m_active menu then (Inl MealNotActive, s)
             else if find (\<lambda>b. b_studentId b = studentId) (m_bookings menu) \<noteq> None
             then (Inl AlreadyBooked, s)
             else
               let bookings = m_bookings menu @
                     [\<lparr> b_studentId = studentId, b_bookedAt = nowISO e \<rparr>];
                   menu1 = menu \<lparr> m_bookings := bookings,
                                  m_bookedCount := Some (length bookings),
                                  m_updatedAt := nowISO e \<rparr>
               in case putMenu (messMenu s) menu1 of
                    Inl err \<Rightarrow> (Inl err, s)
                  | Inr ms \<Rightarrow>
                      let s1 = s \<lparr> messMenu := ms \<rparr>;
                          s2 = s1 \<lparr> mealBookings :=
                                 putObject mb_id (mealBookings s1)
                                   \<lparr> mb_id = date @ ''_'' @ mealType @ ''_'' @ studentId,
                                     mb_date = date, mb_mealType = mealType,
                                     mb_studentId = studentId, mb_bookedAt = nowISO e \<rparr> \<rparr>
                      in (Inr menu1,
                          logActivity e (utf16 studentId) ''book_meal''
                            (''Booked '' @ mealType @ '' for '' @ date) s2))"

definition submitMealFeedback ::
  "env \<Rightarrow> string \<Rightarrow> string \<Rightarrow> string \<Rightarrow> rat \<Rightarrow> string \<Rightarrow> backend \<Rightarrow> (error + menu) \<times> backend"
  where
  "submitMealFeedback e date mealType studentId rating comment s =
     (let menuId = date @ ''_'' @ mealType
      in case getObject m_id (messMenu s) menuId of
           None \<Rightarrow> (Inl MenuNotFound, s)
         | Some menu \<Rightarrow>
             let fb = m_feedback menu @
                   [\<lparr> f_studentId = studentId, f_rating = rating, f_comment = comment,
                      f_submittedAt = nowISO e \<rparr>];
                 menu1 = menu \<lparr> m_feedback := fb \<rparr>;
                 menu2 = (if 0 < length fb
                          then let totalRating = foldl (\<lambda>sum f. fadd sum (f_rating f)) 0 fb
                               in menu1 \<lparr> m_averageRating :=
                                    Some (toFixed 1 (fdiv totalRating (of_nat (length fb)))) \<rparr>
                          else menu1);
                 menu3 = menu2 \<lparr> m_updatedAt := nowISO e \<rparr>
             in case putMenu (messMenu s) menu3 of
                  Inl err \<Rightarrow> (Inl err, s)
                | Inr ms \<Rightarrow>
                    (Inr menu3,
                     logActivity e (utf16 studentId) ''meal_feedback''
                       (''Submitted feedback for '' @ mealType) (s \<lparr> messMenu := ms \<rparr>)))"

text \<open>
  The value \<^verbatim>\<open>submitMealFeedback\<close> computes for \<^verbatim>\<open>averageRating\<close> from a feedback list:
  the expression of the code, as a function of the list.
\<close>

definition averageRating :: "feedback list \<Rightarrow> int" where
  "averageRating fb =
     toFixed 1 (fdiv (foldl (\<lambda>sum f. fadd sum (f_rating f)) 0 fb) (of_nat (length fb)))"

text \<open>
  Following the words of the specification: the arithmetic mean of the ratings of a
  feedback list, an exact number; a number rounded to \<open>f\<close> decimals, the half going up,
  as the whole number of units \<open>10 ^ - f\<close>; and a rating, a whole number from 1 to 5.
\<close>

definition mean :: "feedback list \<Rightarrow> rat" where
  "mean fb = sum_list (map f_rating fb) / of_nat (length fb)"

definition rounded :: "nat \<Rightarrow> rat \<Rightarrow> int" where
  "rounded f x = \<lfloor>x * 10 ^ f + 1 / 2\<rfloor>"

definition star :: "rat \<Rightarrow> bool" where
  "star r \<longleftrightarrow> r = 1 \<or> r = 2 \<or> r = 3 \<or> r = 4 \<or> r = 5"

subsection \<open>Example data\<close>

definition lunch :: menu where
  "lunch = \<lparr> m_id = ''2023-11-15_lunch'', m_date = ''2023-11-15'', m_mealType = ''lunch'',
      m_items = [''Rice'', ''Dal'', ''Paneer''], m_predictedDemand = 50, m_active = True,
      m_createdBy = ''mess_001'', m_createdAt = ''2023-11-14T08:00:00.000Z'',
      m_updatedAt = ''2023-11-14T08:00:00.000Z'', m_bookings = [], m_feedback = [],
      m_bookedCount = None, m_averageRating = None \<rparr>"

definition dinner :: menu where
  "dinner = \<lparr> m_id = ''2023-11-15_dinner'', m_date = ''2023-11-15'', m_mealType = ''dinner'',
      m_items = [''Roti'', ''Sabzi''], m_predictedDemand = 50, m_active = True,
      m_createdBy = ''mess_001'', m_createdAt = ''2023-11-14T08:00:00.000Z'',
      m_updatedAt = ''2023-11-14T09:00:00.000Z'',
      m_bookings = [\<lparr> b_studentId = ''student_001'', b_bookedAt = ''2023-11-14T09:00:00.000Z'' \<rparr>],
      m_feedback = [], m_bookedCount = Some 1, m_averageRating = None \<rparr>"

definition breakfast :: menu where
  "breakfast = \<lparr> m_id = ''2023-11-15_breakfast'', m_date = ''2023-11-15'',
      m_mealType = ''breakfast'', m_items = [''Poha''], m_predictedDemand = 50,
      m_active = False, m_createdBy = ''mess_001'', m_createdAt = ''2023-11-14T08:00:00.000Z'',
      m_updatedAt = ''2023-11-14T08:00:00.000Z'', m_bookings = [], m_feedback = [],
      m_bookedCount = None, m_averageRating = None \<rparr>"

definition with_menus :: backend where
  "with_menus = seeded \<lparr> messMenu := [breakfast, dinner, lunch] \<rparr>"

text \<open>The lunch after nineteen students have rated it, thirteen with 4 and six with 5.\<close>

definition rated :: "rat \<Rightarrow> nat \<Rightarrow> feedback" where
  "rated r i = \<lparr> f_studentId = ''student_'' @ dec i, f_rating = r, f_comment = [],
                 f_submittedAt = ''2023-11-15T08:00:00.000Z'' \<rparr>"

definition lunch_rated :: menu where
  "lunch_rated = lunch \<lparr> m_feedback := map (rated 4) [1..<14] @ map (rated 5) [14..<20],
                         m_averageRating := Some 43 \<rparr>"

definition with_rated_menu :: backend where
  "with_rated_menu = seeded \<lparr> messMenu := [lunch_rated] \<rparr>"

section \<open>Attendance\<close>

text \<open>
  The date of an attendance record is an ISO date, whose text order is the order of the
  days; it is modelled by its instant.  \<open>startDate\<close> and \<open>endDate\<close> are optional.
\<close>

definition getAttendanceForStudent ::
  "backend \<Rightarrow> string \<Rightarrow> int option \<Rightarrow> int option \<Rightarrow> attendance_record list" where
  "getAttendanceForStudent s studentId startDate endDate =
     (let att = getAllObjects (attendance s) (Some at_studentId) (Some studentId);
          att = (case startDate of None \<Rightarrow> att | Some d \<Rightarrow> filter (\<lambda>a. d \<le> at_date a) att);
          att = (case endDate of None \<Rightarrow> att | Some d \<Rightarrow> filter (\<lambda>a. at_date a \<le> d) att)
      in sort_key (\<lambda>a. - at_date a) att)"

record stats =
  total :: nat
  present :: nat
  absent :: nat
  late :: nat
  percentage :: int

definition getAttendanceStats :: "backend \<Rightarrow> string \<Rightarrow> stats" where
  "getAttendanceStats s studentId =
     (let att = getAttendanceForStudent s studentId None None
      in if length att = 0
         then \<lparr> total = 0, present = 0, absent = 0, late = 0, percentage = 0 \<rparr>
         else
           let t = length att;
               p = length (filter (\<lambda>a. at_status a = ''present'') att);
               ab = length (filter (\<lambda>a. at_status a = ''absent'') att);
               l = length (filter (\<lambda>a. at_status a = ''late'') att)
           in \<lparr> total = t, present = p, absent = ab, late = l,
                percentage = Math_round (fmul (fdiv (of_nat p) (of_nat t)) 100) \<rparr>)"

section \<open>Results\<close>













subsection \<open>Example data\<close>

definition mark :: "nat \<Rightarrow> string \<Rightarrow> int \<Rightarrow> string \<Rightarrow> attendance_record" where
  "mark i sid d st =
     \<lparr> at_id = i, at_studentId = sid, at_date = d, at_subject = ''Maths'', at_status = st,
       at_time = ''10:00:00 am'', at_markedBy = ''admin_001'',
       at_timestamp = ''2023-11-14T04:30:00.000Z'', at_semester = ''5'', at_branch = ''CSE'',
       at_remarks = [] \<rparr>"

definition with_attendance :: backend where
  "with_attendance = seeded \<lparr> attendance :=
     [mark 1 ''student_001'' 1699833600000 ''present'',
      mark 2 ''student_002'' 1699833600000 ''late'',
      mark 3 ''student_001'' 1699920000000 ''absent'',
      mark 4 ''student_001'' 1700006400000 ''present'',
      mark 5 ''student_001'' 1700092800000 ''present''] \<rparr>"

text \<open>Forty days of one student, present on the first 23 and absent on the other 17.\<close>

definition with_term_attendance :: backend where
  "with_term_attendance = seeded \<lparr> attendance :=
     map (\<lambda>i. mark i ''student_001'' (1699833600000 + 86400000 * int i)
                (if i \<le> 23 then ''present'' else ''absent'')) [1..<41] \<rparr>"




section \<open>Career opportunities\<close>

text \<open>
  \<^verbatim>\<open>getCurrentUser\<close>: the user held in memory, or else the user of the stored session when
  that user exists and is active, who is then held in memory.
\<close>

definition getCurrentUser :: "backend \<Rightarrow> public_user option \<times> backend" where
  "getCurrentUser s =
     (case currentUser s of
        Some u \<Rightarrow> (Some u, s)
      | None \<Rightarrow>
          (case nerist_session s of
             None \<Rightarrow> (None, s)
           | Some sessionData \<Rightarrow>
               (case getUserById s (s_userId sessionData) of
                  None \<Rightarrow> (None, s)
                | Some u \<Rightarrow>
                    if u_isActive u
                    then (Some (withoutPassword u), s \<lparr> currentUser := Some (withoutPassword u) \<rparr>)
                    else (None, s))))"

definition logout :: "env \<Rightarrow> backend \<Rightarrow> bool \<times> backend" where
  "logout e s =
     (let s1 = (case currentUser s of
                  Some u \<Rightarrow> logActivity e (u_id u) ''logout'' ''User logged out'' s
                | None \<Rightarrow> s)
      in (True, s1 \<lparr> nerist_session := None, nerist_token := None, currentUser := None \<rparr>))"

text \<open>\<^verbatim>\<open>opportunity.applicants || 0\<close>\<close>

definition applicantsOr0 :: "opportunity \<Rightarrow> nat" where
  "applicantsOr0 opp = (case o_applicants opp of None \<Rightarrow> 0 | Some n \<Rightarrow> n)"

text \<open>
  \<^verbatim>\<open>opportunity.deadline && new Date(opportunity.deadline) < new Date()\<close>
\<close>

definition deadlinePassed :: "env \<Rightarrow> opportunity \<Rightarrow> bool" where
  "deadlinePassed e opp = (case o_deadline opp of None \<Rightarrow> False | Some d \<Rightarrow> d < now e)"

text \<open>
  \<^verbatim>\<open>applyForOpportunity\<close>.  The application is put without an id, and the store gives
  it the next key of its generator.
\<close>

definition applyForOpportunity ::
  "env \<Rightarrow> nat \<Rightarrow> string \<Rightarrow> backend \<Rightarrow> (error + application) \<times> backend" where
  "applyForOpportunity e opportunityId studentData s =
     (case getCurrentUser s of
        (None, s0) \<Rightarrow> (Inl NotAuthenticated, s0)
      | (Some cu, s0) \<Rightarrow>
          (case getObject o_id (careerOpportunities s0) opportunityId of
             None \<Rightarrow> (Inl OpportunityNotFound, s0)
           | Some opp \<Rightarrow>
               if deadlinePassed e opp then (Inl DeadlinePassed, s0)
               else
                 let existingApplications =
                       getAllObjects (studentApplications s0) (Some ap_studentId) (Some (u_id cu));
                     alreadyApplied =
                       (\<exists>app \<in> set existingApplications. ap_opportunityId app = opportunityId)
                 in if alreadyApplied then (Inl AlreadyApplied, s0)
                    else
                      let application =
                            \<lparr> ap_id = studentApplications_keygen s0,
                              ap_studentId = u_id cu, ap_studentName = u_name cu,
                              ap_opportunityId = opportunityId,
                              ap_opportunityTitle = o_title opp,
                              ap_appliedDate = nowISO e, ap_status = ''pending'',
                              ap_studentData = studentData, ap_lastUpdated = nowISO e \<rparr>;
                          s1 = s0 \<lparr> studentApplications :=
                                      putObject ap_id (studentApplications s0) application,
                                    studentApplications_keygen :=
                                      Suc (studentApplications_keygen s0) \<rparr>;
                          opp1 = opp \<lparr> o_applicants := Some (applicantsOr0 opp + 1) \<rparr>;
                          s2 = s1 \<lparr> careerOpportunities :=
                                      putObject o_id (careerOpportunities s1) opp1 \<rparr>
                      in (Inr application,
                          logActivity e (u_id cu) ''apply_opportunity''
                            (''Applied for: '' @ o_title opp) s2)))"

text \<open>
  A sequence of calls of \<^verbatim>\<open>applyForOpportunity\<close>, with the calls of \<^verbatim>\<open>login\<close> and
  \<^verbatim>\<open>logout\<close> between them that change the student who applies, each at its own time.
\<close>

datatype call = Apply nat string | Login string code_units | Logout

fun step :: "env \<times> call \<Rightarrow> backend \<Rightarrow> backend" where
  "step (e, Apply opportunityId studentData) s = snd (applyForOpportunity e opportunityId studentData s)"
| "step (e, Login username password) s = snd (login e username password s)"
| "step (e, Logout) s = snd (logout e s)"

definition run :: "(env \<times> call) list \<Rightarrow> backend \<Rightarrow> backend" where
  "run calls s = foldl (\<lambda>s c. step c s) s calls"

text \<open>
  The invariant the storage keeps on the two stores: one opportunity for each id, and the
  key generator of the applications above every key in use.
\<close>

definition career_wf :: "backend \<Rightarrow> bool" where
  "career_wf s \<longleftrightarrow>
     distinct (map o_id (careerOpportunities s)) \<and>
     (\<forall>a \<in> set (studentApplications s). ap_id a < studentApplications_keygen s)"

text \<open>
  Following the words of the specification: the applications that reference an
  opportunity; every counter equals the number of them; and no two applications are of the
  same student for the same opportunity.
\<close>

definition applicationsFor :: "nat \<Rightarrow> backend \<Rightarrow> application list" where
  "applicationsFor opportunityId s =
     filter (\<lambda>a. ap_opportunityId a = opportunityId) (studentApplications s)"

definition countersMatch :: "backend \<Rightarrow> bool" where
  "countersMatch s \<longleftrightarrow>
     (\<forall>opp \<in> set (careerOpportunities s).
        applicantsOr0 opp = length (applicationsFor (o_id opp) s))"

definition onePerStudent :: "backend \<Rightarrow> bool" where
  "onePerStudent s \<longleftrightarrow>
     distinct (map (\<lambda>a. (ap_studentId a, ap_opportunityId a)) (studentApplications s))"

subsection \<open>Example data\<close>

text \<open>
  Two opportunities as \<^verbatim>\<open>createCareerOpportunity\<close> leaves them, the first with a
  deadline a day after the time of \<open>env0\<close>, the second with a deadline that has passed; and
  the seeded student logged in.
\<close>

definition internship :: opportunity where
  "internship = \<lparr> o_id = 1, o_title = ''Summer internship'', o_type = ''internship'',
      o_deadline = Some 1700086400000, o_status = ''active'', o_eligibleDepartments = None,
      o_applicants = Some 0, o_views = 0, o_createdAt = ''2023-11-01T00:00:00.000Z'',
      o_createdBy = ''admin_001'' \<rparr>"

definition placement :: opportunity where
  "placement = \<lparr> o_id = 2, o_title = ''Campus placement'', o_type = ''placement'',
      o_deadline = Some 1699000000000, o_status = ''active'', o_eligibleDepartments = None,
      o_applicants = Some 0, o_views = 0, o_createdAt = ''2023-10-01T00:00:00.000Z'',
      o_createdBy = ''admin_001'' \<rparr>"

definition with_opportunities :: backend where
  "with_opportunities =
     seeded \<lparr> careerOpportunities := [internship, placement],
              currentUser := Some (withoutPassword student_001) \<rparr>"

text \<open>Two days after \<open>env0\<close>.\<close>

definition env2 :: env where
  "env2 = \<lparr> now = 1700172800000, nowISO = ''2023-11-16T22:13:20.000Z'',
            random36 = ''0.8k2jx0p3q1a'', userAgent = ''Mozilla/5.0'' \<rparr>"

chapter \<open>Theorems\<close>

section \<open>Properties of the number model\<close>

lemma bit_length_bounds:
  "0 < n \<Longrightarrow> 2 ^ (bit_length n - 1) \<le> n \<and> n < 2 ^ bit_length n"
proof (induction n rule: bit_length.induct)
  case (1 n)
  show ?case
  proof (cases "n = 1")
    case True
    then show ?thesis by (simp add: bit_length.simps [of 1] bit_length.simps [of 0])
  next
    case False
    then have h: "0 < n div 2" using "1.prems" by simp
    have bl: "bit_length n = Suc (bit_length (n div 2))"
      using "1.prems" by (subst bit_length.simps) simp
    have pos: "0 < bit_length (n div 2)"
      using h by (subst bit_length.simps) simp
    have ih: "2 ^ (bit_length (n div 2) - 1) \<le> n div 2" "n div 2 < 2 ^ bit_length (n div 2)"
      using "1.IH" h "1.prems" by simp_all
    have "(2::int) ^ bit_length (n div 2) = 2 * 2 ^ (bit_length (n div 2) - 1)"
      using pos by (cases "bit_length (n div 2)") simp_all
    then have "2 ^ bit_length (n div 2) \<le> n" using ih(1) by linarith
    moreover have "n < 2 * 2 ^ bit_length (n div 2)" using ih(2) by linarith
    ultimately show ?thesis by (simp add: bl)
  qed
qed

lemma ilog2_bounds:
  assumes "x \<noteq> 0"
  shows "2 powi ilog2 x \<le> \<bar>x\<bar> \<and> \<bar>x\<bar> < 2 powi (ilog2 x + 1)"
proof -
  obtain p q where pq: "quotient_of \<bar>x\<bar> = (p, q)" by (cases "quotient_of \<bar>x\<bar>")
  have q: "0 < q" using quotient_of_denom_pos [OF pq] .
  have x: "\<bar>x\<bar> = of_int p / of_int q" using quotient_of_div [OF pq] .
  have "0 < \<bar>x\<bar>" using assms by simp
  then have p: "0 < p" using q unfolding x by (simp add: zero_less_divide_iff)
  define bp bq where "bp = bit_length p" and "bq = bit_length q"
  define e0 where "e0 = int bp - int bq"
  have bp: "2 ^ (bp - 1) \<le> p" "p < 2 ^ bp" and bq: "2 ^ (bq - 1) \<le> q" "q < 2 ^ bq"
    using bit_length_bounds [OF p] bit_length_bounds [OF q] by (simp_all add: bp_def bq_def)
  have bp0: "0 < bp" and bq0: "0 < bq"
    using p q by (simp_all add: bp_def bq_def bit_length.simps [of p] bit_length.simps [of q])
  have rp: "(2::rat) ^ (bp - 1) \<le> of_int p" "of_int p < (2::rat) ^ bp"
    and rq: "(2::rat) ^ (bq - 1) \<le> of_int q" "of_int q < (2::rat) ^ bq"
    using bp bq by (metis of_int_le_iff of_int_numeral of_int_power,
        metis of_int_less_iff of_int_numeral of_int_power,
        metis of_int_le_iff of_int_numeral of_int_power,
        metis of_int_less_iff of_int_numeral of_int_power)
  have qpos: "(0::rat) < of_int q" using q by simp
  have e1: "(2::rat) powi (e0 + 1) = 2 ^ bp / 2 ^ (bq - 1)"
  proof -
    have "e0 + 1 = int bp - int (bq - 1)" using bq0 by (simp add: e0_def)
    then show ?thesis by (simp add: power_int_diff)
  qed
  have e2: "(2::rat) powi (e0 - 1) = 2 ^ (bp - 1) / 2 ^ bq"
  proof -
    have "e0 - 1 = int (bp - 1) - int bq" using bp0 by (simp add: e0_def)
    then show ?thesis by (simp add: power_int_diff)
  qed
  have up: "\<bar>x\<bar> < 2 powi (e0 + 1)"
  proof -
    have "of_int p / of_int q < (2::rat) ^ bp / of_int q"
      using rp(2) qpos by (simp add: divide_strict_right_mono)
    also have "\<dots> \<le> 2 ^ bp / 2 ^ (bq - 1)"
      using rq(1) by (intro frac_le) simp_all
    finally show ?thesis unfolding x e1 .
  qed
  have lo: "2 powi (e0 - 1) \<le> \<bar>x\<bar>"
  proof -
    have "(2::rat) ^ (bp - 1) / 2 ^ bq \<le> of_int p / 2 ^ bq"
      using rp(1) by (simp add: divide_right_mono)
    also have "\<dots> \<le> of_int p / of_int q"
      using rq(2) qpos p by (intro frac_le) simp_all
    finally show ?thesis unfolding x e2 .
  qed
  have il: "ilog2 x = (if 2 powi e0 \<le> \<bar>x\<bar> then e0 else e0 - 1)"
    by (simp add: ilog2_def pq e0_def bp_def bq_def Let_def)
  show ?thesis
  proof (cases "2 powi e0 \<le> \<bar>x\<bar>")
    case True
    then show ?thesis using up il by simp
  next
    case False
    then show ?thesis using lo il by simp
  qed
qed

lemma ilog2_unique:
  assumes "2 powi e \<le> \<bar>x\<bar>" "\<bar>x\<bar> < 2 powi (e + 1)"
  shows "ilog2 x = e"
proof -
  have "(0::rat) < 2 powi e" by (rule zero_less_power_int) simp
  then have "0 < \<bar>x\<bar>" using assms(1) by linarith
  then have "x \<noteq> 0" by simp
  note b = ilog2_bounds [OF this]
  have "e < ilog2 x + 1"
  proof (rule ccontr)
    assume "\<not> e < ilog2 x + 1"
    then have "(2::rat) powi (ilog2 x + 1) \<le> 2 powi e" by (intro power_int_increasing) simp_all
    then show False using b assms(1) by linarith
  qed
  moreover have "ilog2 x < e + 1"
  proof (rule ccontr)
    assume "\<not> ilog2 x < e + 1"
    then have "(2::rat) powi (e + 1) \<le> 2 powi ilog2 x" by (intro power_int_increasing) simp_all
    then show False using b assms(2) by linarith
  qed
  ultimately show ?thesis by simp
qed

lemma nonzero_of_pow_le:
  assumes "2 powi e \<le> \<bar>x :: rat\<bar>"
  shows "x \<noteq> 0"
proof -
  have "(0::rat) < 2 powi e" by (rule zero_less_power_int) simp
  then have "0 < \<bar>x\<bar>" using assms by linarith
  then show ?thesis by simp
qed

lemma roundTiesToEven_of_int [simp]: "roundTiesToEven (of_int n) = n"
  by (simp add: roundTiesToEven_def)

lemma roundTiesToEven_error: "\<bar>of_int (roundTiesToEven y) - y\<bar> \<le> 1 / 2"
proof -
  have "of_int \<lfloor>y\<rfloor> \<le> y" "y < of_int \<lfloor>y\<rfloor> + 1" by linarith+
  then show ?thesis by (auto simp: roundTiesToEven_def Let_def)
qed

lemma ulp_pos: "0 < ulp x"
  unfolding ulp_def by (rule zero_less_power_int) simp

lemma fl_error: "\<bar>fl x - x\<bar> \<le> ulp x / 2"
proof (cases "x = 0")
  case True
  then show ?thesis using ulp_pos [of x] by (simp add: fl_def)
next
  case False
  have u: "0 < ulp x" by (rule ulp_pos)
  have "fl x - x = (of_int (roundTiesToEven (x / ulp x)) - x / ulp x) * ulp x"
    using False u by (simp add: fl_def field_simps)
  then have "\<bar>fl x - x\<bar> = \<bar>of_int (roundTiesToEven (x / ulp x)) - x / ulp x\<bar> * ulp x"
    using u by (simp add: abs_mult)
  also have "\<dots> \<le> 1 / 2 * ulp x"
    using roundTiesToEven_error [of "x / ulp x"] u by (intro mult_right_mono) simp_all
  finally show ?thesis by simp
qed

lemma ilog2_ge:
  assumes "2 powi e \<le> \<bar>x\<bar>"
  shows "e \<le> ilog2 x"
proof (rule ccontr)
  assume "\<not> e \<le> ilog2 x"
  then have "(2::rat) powi (ilog2 x + 1) \<le> 2 powi e" by (intro power_int_increasing) simp_all
  moreover have "x \<noteq> 0" by (rule nonzero_of_pow_le [OF assms])
  ultimately show False using ilog2_bounds [of x] assms by linarith
qed

lemma ilog2_less:
  assumes "x \<noteq> 0" "\<bar>x\<bar> < 2 powi e"
  shows "ilog2 x < e"
proof (rule ccontr)
  assume "\<not> ilog2 x < e"
  then have "(2::rat) powi e \<le> 2 powi ilog2 x" by (intro power_int_increasing) simp_all
  then show False using ilog2_bounds [OF assms(1)] assms(2) by linarith
qed

lemma fl_rel_error:
  assumes "2 powi (- 1022) \<le> \<bar>x\<bar>"
  shows "\<bar>fl x - x\<bar> \<le> \<bar>x\<bar> * 2 powi (- 53)"
proof -
  have e: "- 1022 \<le> ilog2 x" using ilog2_ge [OF assms] .
  have x0: "x \<noteq> 0" by (rule nonzero_of_pow_le [OF assms])
  have "ulp x = 2 powi (ilog2 x - 52)" using e by (simp add: ulp_def max_def)
  also have "\<dots> = 2 powi ilog2 x * 2 powi (- 52)"
    using power_int_add [of "2::rat" "ilog2 x" "- 52"] by simp
  also have "\<dots> \<le> \<bar>x\<bar> * 2 powi (- 52)"
    using ilog2_bounds [OF x0] by (intro mult_right_mono) simp_all
  finally have u: "ulp x / 2 \<le> \<bar>x\<bar> * (2 powi (- 52) / 2)" by simp
  have "(2::rat) powi (- 52) / 2 = 2 powi (- 53)"
    using power_int_add [of "2::rat" "- 53" 1] by simp
  then have "ulp x / 2 \<le> \<bar>x\<bar> * 2 powi (- 53)" using u by simp
  then show ?thesis using fl_error [of x] by linarith
qed

lemma fl_exact:
  assumes n: "\<bar>n\<bar> < 2 ^ 53" and j: "- 1074 \<le> j"
  shows "fl (of_int n * 2 powi j) = of_int n * 2 powi j"
proof (cases "n = 0")
  case True
  then show ?thesis by (simp add: fl_def)
next
  case False
  define x :: rat where "x = of_int n * 2 powi j"
  have pj: "(0::rat) < 2 powi j" by (rule zero_less_power_int) simp
  have x0: "x \<noteq> 0" using False pj by (simp add: x_def)
  have "\<bar>x\<bar> = of_int \<bar>n\<bar> * 2 powi j" using pj by (simp add: x_def abs_mult)
  also have "\<dots> < 2 ^ 53 * 2 powi j"
  proof -
    have "(of_int \<bar>n\<bar> :: rat) < of_int (2 ^ 53)" using n by (simp only: of_int_less_iff)
    then show ?thesis using pj by (intro mult_strict_right_mono) simp_all
  qed
  also have "\<dots> = 2 powi (53 + j)"
    using power_int_add [of "2::rat" 53 j] by simp
  finally have "ilog2 x < 53 + j" by (rule ilog2_less [OF x0])
  then have k: "0 \<le> j + 52 - max (ilog2 x) (- 1022)" using j by simp
  define k where "k = nat (j + 52 - max (ilog2 x) (- 1022))"
  have "j = (max (ilog2 x) (- 1022) - 52) + int k" using k by (simp add: k_def)
  then have "(2::rat) powi j = 2 powi (max (ilog2 x) (- 1022) - 52) * 2 ^ k"
    using power_int_add [of "2::rat" "max (ilog2 x) (- 1022) - 52" "int k"] by simp
  then have "(of_int n :: rat) * 2 powi j =
      of_int (n * 2 ^ k) * 2 powi (max (ilog2 x) (- 1022) - 52)"
    by (simp only: of_int_mult of_int_power of_int_numeral mult_ac)
  then have xk: "x = of_int (n * 2 ^ k) * ulp x" unfolding ulp_def x_def [symmetric] .
  have "x / ulp x = of_int (n * 2 ^ k) * ulp x / ulp x" using xk by simp
  also have "\<dots> = of_int (n * 2 ^ k)"
  proof (rule nonzero_mult_div_cancel_right)
    show "ulp x \<noteq> 0" using ulp_pos [of x] by linarith
  qed
  finally have "roundTiesToEven (x / ulp x) = n * 2 ^ k"
    by (simp only: roundTiesToEven_of_int)
  then have "fl x = of_int (n * 2 ^ k) * ulp x" using x0 by (simp only: fl_def if_False)
  then have "fl x = x" using xk by simp
  then show ?thesis unfolding x_def .
qed

lemma fl_of_int: "\<bar>n\<bar> < 2 ^ 53 \<Longrightarrow> fl (of_int n) = of_int n"
  using fl_exact [of n 0] by simp

lemma fl_eval:
  assumes "2 powi e \<le> \<bar>x\<bar>" "\<bar>x\<bar> < 2 powi (e + 1)" "- 1022 \<le> e"
  shows "fl x = of_int (roundTiesToEven (x / 2 powi (e - 52))) * 2 powi (e - 52)"
proof -
  have "x \<noteq> 0" by (rule nonzero_of_pow_le [OF assms(1)])
  then show ?thesis using ilog2_unique [OF assms(1,2)] assms(3) by (simp add: fl_def ulp_def)
qed

lemma floor_rat_numeral: "\<lfloor>(numeral a :: rat) / numeral b\<rfloor> = numeral a div numeral b"
  using floor_divide_of_int_eq [of "numeral a" "numeral b", where ?'a = rat] by simp

section \<open>Rounding\<close>

lemma fl_0: "fl 0 = 0"
  by (simp add: fl_def)

lemma fl_1: "fl 1 = 1"
  using fl_of_int [of 1] by simp

lemma fl_numeral: "(numeral k :: int) < 2 ^ 53 \<Longrightarrow> fl (numeral k) = numeral k"
  using fl_of_int [of "numeral k"] by simp


lemma toFixed_near:
  assumes "0 \<le> x" "of_int n - 1 / 2 \<le> x * 10 ^ f" "x * 10 ^ f < of_int n + 1 / 2"
  shows "toFixed f x = n"
proof -
  have "\<lfloor>x * 10 ^ f + 1 / 2\<rfloor> = n" using assms(2,3) by (intro floor_unique) linarith+
  then show ?thesis using assms(1) by (simp add: toFixed_def)
qed


text \<open>
  An integer nearest to a number close enough to a fraction of denominator \<open>2 * t\<close> is an
  integer nearest to the fraction.
\<close>

lemma floor_perturb:
  fixes y :: rat and a t :: int
  assumes t: "0 < t" and y: "\<bar>y - of_int a / of_int (2 * t)\<bar> < 1 / of_int (2 * t)"
  shows "\<bar>of_int \<lfloor>y + 1 / 2\<rfloor> - of_int a / of_int (2 * t)\<bar> \<le> (1 / 2 :: rat)"
proof -
  define k where "k = \<lfloor>y + 1 / 2\<rfloor>"
  define T :: rat where "T = of_int (2 * t)"
  have T: "0 < T" using t by (simp add: T_def)
  have k: "of_int k \<le> y + 1 / 2" "y + 1 / 2 < of_int k + 1" unfolding k_def by linarith+
  have "\<bar>y - of_int a / T\<bar> * T < 1 / T * T"
    using y T unfolding T_def [symmetric] by (intro mult_strict_right_mono)
  moreover have "\<bar>y - of_int a / T\<bar> * T = \<bar>(y - of_int a / T) * T\<bar>"
    using T by (simp add: abs_mult)
  moreover have "(y - of_int a / T) * T = y * T - of_int a" using T by (simp add: field_simps)
  moreover have "1 / T * T = 1" using T by simp
  ultimately have "\<bar>y * T - of_int a\<bar> < 1" by simp
  then have Y: "y * T < of_int a + 1" "of_int a - 1 < y * T" by linarith+
  have k1: "of_int k * T \<le> (y + 1 / 2) * T" using k(1) T by (intro mult_right_mono) simp_all
  have k2: "(y + 1 / 2) * T < (of_int k + 1) * T" using k(2) T by (intro mult_strict_right_mono)
  have half: "(1 / 2) * T = of_int t" by (simp add: T_def)
  have kT: "of_int k * T = of_int (2 * k * t)" by (simp add: T_def)
  have up: "a \<le> (2 * k + 1) * t"
  proof (rule ccontr)
    assume "\<not> a \<le> (2 * k + 1) * t"
    then have "(2 * k + 1) * t + 1 \<le> a" by simp
    then have "(of_int ((2 * k + 1) * t + 1) :: rat) \<le> of_int a" by (simp only: of_int_le_iff)
    then have "of_int (2 * k * t) + of_int t < y * T" using Y(2) by (simp add: algebra_simps)
    then show False using k2 half kT by (simp add: algebra_simps)
  qed
  have lo: "(2 * k - 1) * t \<le> a"
  proof (rule ccontr)
    assume "\<not> (2 * k - 1) * t \<le> a"
    then have "a \<le> (2 * k - 1) * t - 1" by simp
    then have "(of_int a :: rat) \<le> of_int ((2 * k - 1) * t - 1)" by (simp only: of_int_le_iff)
    then have "y * T < of_int (2 * k * t) - of_int t" using Y(1) by (simp add: algebra_simps)
    then show False using k1 half kT by (simp add: algebra_simps)
  qed
  have "(of_int a :: rat) \<le> of_int ((2 * k + 1) * t)" using up by (simp only: of_int_le_iff)
  then have u: "of_int a \<le> (of_int k + 1 / 2) * T" by (simp add: T_def algebra_simps)
  have "(of_int ((2 * k - 1) * t) :: rat) \<le> of_int a" using lo by (simp only: of_int_le_iff)
  then have l: "(of_int k - 1 / 2) * T \<le> of_int a" by (simp add: T_def algebra_simps)
  have "of_int a / T \<le> of_int k + 1 / 2" using u T by (simp add: pos_divide_le_eq)
  moreover have "of_int k - 1 / 2 \<le> of_int a / T" using l T by (simp add: pos_le_divide_eq)
  ultimately show ?thesis unfolding k_def [symmetric] T_def [symmetric] by linarith
qed

text \<open>
  A sum of whole numbers that are not negative is exact in JavaScript numbers as long as
  it stays below \<open>2 ^ 53\<close>.
\<close>

lemma sum_list_of_int: "sum_list (map of_int ks) = (of_int (sum_list ks) :: rat)"
  by (induction ks) simp_all

lemma foldl_fadd_int:
  assumes "\<forall>k \<in> set ks. 0 \<le> k" "0 \<le> a" "a + sum_list ks < 2 ^ 53"
  shows "foldl fadd (of_int a) (map of_int ks) = of_int (a + sum_list ks)"
  using assms
proof (induction ks arbitrary: a)
  case Nil
  then show ?case by simp
next
  case (Cons k ks)
  have "0 \<le> sum_list ks" using Cons.prems(1) by (intro sum_list_nonneg) simp
  then have "\<bar>a + k\<bar> < 2 ^ 53" using Cons.prems by simp
  then have "fadd (of_int a) (of_int k) = of_int (a + k)"
    using fl_of_int [of "a + k"] by (simp add: fadd_def)
  moreover have "foldl fadd (of_int (a + k)) (map of_int ks) = of_int (a + k + sum_list ks)"
    using Cons.prems by (intro Cons.IH) (simp_all add: add.assoc)
  ultimately show ?case by (simp add: add.assoc)
qed

text \<open>
  \<^verbatim>\<open>(a / b).toFixed(f)\<close> for whole numbers \<open>a\<close> and \<open>b\<close>: the quotient is rounded to a
  double first, and the text then denotes an integer number of units \<open>10 ^ - f\<close> that is
  nearest to the exact quotient.
\<close>

lemma toFixed_fl_nearest:
  fixes a b :: int
  assumes a: "0 \<le> a" and b: "0 < b" and small: "a * 10 ^ f < 2 ^ 52" and b53: "b < 2 ^ 1022"
  shows "\<bar>of_int (toFixed f (fl (of_int a / of_int b))) - of_int (a * 10 ^ f) / of_int b\<bar>
           \<le> (1 / 2 :: rat)"
proof (cases "a = 0")
  case True
  have "\<lfloor>1 / 2 :: rat\<rfloor> = 0" by (rule floor_unique) simp_all
  then show ?thesis using True by (simp add: fl_0 toFixed_def)
next
  case False
  define x :: rat where "x = of_int a / of_int b"
  define y where "y = fl x"
  define p :: rat where "p = 10 ^ f"
  have br: "(0::rat) < of_int b" using b by simp
  have p: "0 < p" by (simp add: p_def)
  have "1 \<le> a" using a False by simp
  then have "(of_int 1 :: rat) \<le> of_int a" by (simp only: of_int_le_iff)
  then have a1: "(1::rat) \<le> of_int a" by simp
  have x0: "0 < x" using a1 br by (simp add: x_def)
  have "(of_int b :: rat) < of_int (2 ^ 1022)" using b53 by (simp only: of_int_less_iff)
  then have "(of_int b :: rat) < 2 ^ 1022" by simp
  then have "1 / 2 ^ 1022 < 1 / (of_int b :: rat)" using br by (simp add: frac_less2)
  moreover have "1 / of_int b \<le> x" using a1 br by (simp add: x_def divide_right_mono)
  moreover have "(2::rat) powi (- 1022) = 1 / 2 ^ 1022" by (simp add: power_int_minus)
  ultimately have "2 powi (- 1022) \<le> \<bar>x\<bar>" by simp
  then have "\<bar>fl x - x\<bar> \<le> \<bar>x\<bar> * 2 powi (- 53)" by (rule fl_rel_error)
  then have e: "\<bar>y - x\<bar> \<le> x / 2 ^ 53" using x0 by (simp add: y_def power_int_minus)
  then have y0: "0 \<le> y"
  proof -
    have "x / 2 ^ 53 \<le> x" using x0 by (simp add: divide_le_eq)
    then show ?thesis using e by linarith
  qed
  have "\<bar>y - x\<bar> * p \<le> x / 2 ^ 53 * p" using e p by (intro mult_right_mono) simp_all
  moreover have "\<bar>y - x\<bar> * p = \<bar>y * p - x * p\<bar>" using p by (simp add: abs_mult left_diff_distrib [symmetric])
  ultimately have e': "\<bar>y * p - x * p\<bar> \<le> x * p / 2 ^ 53" by simp
  have "(of_int (a * 10 ^ f) :: rat) < of_int (2 ^ 52)" using small by (simp only: of_int_less_iff)
  then have ap: "of_int a * p < 2 ^ 52" by (simp add: p_def)
  have "x * p = of_int a * p / of_int b" by (simp add: x_def)
  also have "\<dots> < 2 ^ 52 / of_int b" using ap br by (intro divide_strict_right_mono)
  finally have "x * p / 2 ^ 53 < 2 ^ 52 / of_int b / 2 ^ 53" by (intro divide_strict_right_mono) simp_all
  also have "\<dots> = 1 / of_int (2 * b)" by simp
  finally have lt: "x * p / 2 ^ 53 < 1 / of_int (2 * b)" .
  have xp: "x * p = of_int (2 * a * 10 ^ f) / of_int (2 * b)" by (simp add: x_def p_def)
  have "\<bar>y * p - of_int (2 * a * 10 ^ f) / of_int (2 * b)\<bar> < 1 / of_int (2 * b)"
    using e' lt unfolding xp by linarith
  then have "\<bar>of_int \<lfloor>y * p + 1 / 2\<rfloor> - of_int (2 * a * 10 ^ f) / of_int (2 * b)\<bar> \<le> (1 / 2 :: rat)"
    using b by (intro floor_perturb)
  moreover have "of_int (2 * a * 10 ^ f) / (of_int (2 * b) :: rat) = of_int (a * 10 ^ f) / of_int b"
    by simp
  moreover have "toFixed f y = \<lfloor>y * p + 1 / 2\<rfloor>" using y0 by (simp add: toFixed_def p_def)
  ultimately show ?thesis by (simp add: y_def x_def)
qed

text \<open>
  An integer within a half of a number is the number rounded half up, or the number is a
  half above it.
\<close>

lemma nearest_cases:
  fixes x :: rat
  assumes "\<bar>of_int t - x\<bar> \<le> 1 / 2"
  shows "t = \<lfloor>x + 1 / 2\<rfloor> \<or> of_int t = x - 1 / 2"
proof (cases "of_int t = x - 1 / 2")
  case True
  then show ?thesis by simp
next
  case False
  then have "of_int t \<le> x + 1 / 2" "x + 1 / 2 < of_int t + 1" using assms by linarith+
  then have "\<lfloor>x + 1 / 2\<rfloor> = t" by (rule floor_unique)
  then show ?thesis by simp
qed





section \<open>Properties of \<^verbatim>\<open>btoa\<close>\<close>

lemma distinct_b64chars: "distinct b64chars"
  by (simp add: b64chars_def)

lemma length_b64chars: "length b64chars = 64"
  by (simp add: b64chars_def)

lemma b64_inj: "a < 64 \<Longrightarrow> b < 64 \<Longrightarrow> b64 a = b64 b \<longleftrightarrow> a = b"
  unfolding b64_def using distinct_b64chars length_b64chars
  by (simp add: nth_eq_iff_index_eq)

lemma pad_notin_b64chars: "CHR ''='' \<notin> set b64chars"
  by (simp add: b64chars_def)

lemma b64_not_pad: "a < 64 \<Longrightarrow> b64 a \<noteq> CHR ''=''"
  unfolding b64_def using pad_notin_b64chars length_b64chars
  by (metis nth_mem)

lemma sx1: "a < 256 \<Longrightarrow> a div 4 < (64::nat)"
  by simp

lemma sx2: "(a mod 4) * 16 < (64::nat)"
proof -
  have "a mod 4 < 4" by simp
  then show ?thesis by linarith
qed

lemma sx3: "b < 256 \<Longrightarrow> (a mod 4) * 16 + b div 16 < (64::nat)"
proof -
  assume "b < 256"
  then have "b div 16 < 16" by simp
  moreover have "a mod 4 < 4" by simp
  ultimately show ?thesis by linarith
qed

lemma sx4: "(b mod 16) * 4 < (64::nat)"
proof -
  have "b mod 16 < 16" by simp
  then show ?thesis by linarith
qed

lemma sx5: "c < 256 \<Longrightarrow> (b mod 16) * 4 + c div 64 < (64::nat)"
proof -
  assume "c < 256"
  then have "c div 64 < 4" by simp
  moreover have "b mod 16 < 16" by simp
  ultimately show ?thesis by linarith
qed

lemma sx6: "c mod 64 < (64::nat)"
  by simp

lemma split_digits:
  fixes x y x' y' k :: nat
  assumes "y < k" "y' < k" "x * k + y = x' * k + y'"
  shows "x = x' \<and> y = y'"
proof -
  have "(x * k + y) div k = x" "(x' * k + y') div k = x'" using assms(1,2) by simp_all
  then have x: "x = x'" using assms(3) by simp
  then show ?thesis using assms(3) by simp
qed

lemma div_mod_eq:
  fixes a b k :: nat
  assumes "a div k = b div k" "a mod k = b mod k"
  shows "a = b"
  using assms by (metis div_mult_mod_eq)

lemma quad_inj:
  fixes a b c a' b' c' :: nat
  assumes "b < 256" "b' < 256" "c < 256" "c' < 256"
    and "a div 4 = a' div 4" "(a mod 4) * 16 + b div 16 = (a' mod 4) * 16 + b' div 16"
    "(b mod 16) * 4 + c div 64 = (b' mod 16) * 4 + c' div 64" "c mod 64 = c' mod 64"
  shows "a = a' \<and> b = b' \<and> c = c'"
proof -
  have "b div 16 < 16" "b' div 16 < 16" "c div 64 < 4" "c' div 64 < 4"
    using assms(1-4) by simp_all
  then have 1: "a mod 4 = a' mod 4 \<and> b div 16 = b' div 16"
    and 2: "b mod 16 = b' mod 16 \<and> c div 64 = c' div 64"
    using assms(6,7) split_digits by blast+
  have "a = a'" using assms(5) 1 by (blast intro: div_mod_eq)
  moreover have "b = b'" using 1 2 by (blast intro: div_mod_eq)
  moreover have "c = c'" using assms(8) 2 by (blast intro: div_mod_eq)
  ultimately show ?thesis by simp
qed

lemma encode_Nil_iff: "encode xs = [] \<longleftrightarrow> xs = []"
  by (cases xs rule: encode.cases) simp_all

lemma b64_eqD: "b64 x = b64 y \<Longrightarrow> x < 64 \<Longrightarrow> y < 64 \<Longrightarrow> x = y"
  using b64_inj by blast

lemma encode_inj:
  "\<forall>c \<in> set xs. c < 256 \<Longrightarrow> \<forall>c \<in> set ys. c < 256 \<Longrightarrow> encode xs = encode ys \<Longrightarrow> xs = ys"
proof (induction xs arbitrary: ys rule: encode.induct)
  case 1
  then show ?case using encode_Nil_iff [of ys] by simp
next
  case (2 a)
  have a: "a < 256" using 2(1) by simp
  show ?case
  proof (cases ys rule: encode.cases)
    case 1
    with 2(3) show ?thesis by simp
  next
    case (2 a')
    have a': "a' < 256" using "2.prems"(2) 2 by simp
    have e: "encode [a] = encode [a']" using "2.prems"(3) unfolding 2 .
    have e0: "b64 (a div 4) = b64 (a' div 4)" using arg_cong [OF e, of "\<lambda>l. l ! 0"] by simp
    have e1: "b64 ((a mod 4) * 16) = b64 ((a' mod 4) * 16)"
      using arg_cong [OF e, of "\<lambda>l. l ! 1"] by simp
    have "a div 4 = a' div 4" by (rule b64_eqD [OF e0 sx1 [OF a] sx1 [OF a']])
    moreover have "(a mod 4) * 16 = (a' mod 4) * 16" by (rule b64_eqD [OF e1 sx2 sx2])
    then have "a mod 4 = a' mod 4" by simp
    ultimately have "a = a'" by (rule div_mod_eq)
    then show ?thesis using 2 by simp
  next
    case (3 a' b')
    have e: "encode [a] = encode [a', b']" using "2.prems"(3) unfolding 3 .
    have "CHR ''='' = b64 ((b' mod 16) * 4)" using arg_cong [OF e, of "\<lambda>l. l ! 2"] by simp
    then show ?thesis using b64_not_pad [OF sx4] by metis
  next
    case (4 a' b' c' r')
    have e: "encode [a] = encode (a' # b' # c' # r')" using "2.prems"(3) unfolding 4 .
    have "CHR ''='' = b64 (c' mod 64)" using arg_cong [OF e, of "\<lambda>l. l ! 3"] by simp
    then show ?thesis using b64_not_pad [OF sx6] by metis
  qed
next
  case (3 a b)
  have ab: "a < 256" "b < 256" using 3(1) by simp_all
  show ?case
  proof (cases ys rule: encode.cases)
    case 1
    with 3(3) show ?thesis by simp
  next
    case (2 a')
    have e: "encode [a, b] = encode [a']" using "3.prems"(3) unfolding 2 .
    have "b64 ((b mod 16) * 4) = CHR ''=''" using arg_cong [OF e, of "\<lambda>l. l ! 2"] by simp
    then show ?thesis using b64_not_pad [OF sx4] by metis
  next
    case (3 a' b')
    have ab': "a' < 256" "b' < 256" using "3.prems"(2) 3 by simp_all
    have e: "encode [a, b] = encode [a', b']" using "3.prems"(3) unfolding 3 .
    have e0: "b64 (a div 4) = b64 (a' div 4)" using arg_cong [OF e, of "\<lambda>l. l ! 0"] by simp
    have e1: "b64 ((a mod 4) * 16 + b div 16) = b64 ((a' mod 4) * 16 + b' div 16)"
      using arg_cong [OF e, of "\<lambda>l. l ! 1"] by simp
    have e2: "b64 ((b mod 16) * 4) = b64 ((b' mod 16) * 4)"
      using arg_cong [OF e, of "\<lambda>l. l ! 2"] by simp
    have "a div 4 = a' div 4" by (rule b64_eqD [OF e0 sx1 [OF ab(1)] sx1 [OF ab'(1)]])
    moreover have "(a mod 4) * 16 + b div 16 = (a' mod 4) * 16 + b' div 16"
      by (rule b64_eqD [OF e1 sx3 [OF ab(2)] sx3 [OF ab'(2)]])
    moreover have "(b mod 16) * 4 = (b' mod 16) * 4" by (rule b64_eqD [OF e2 sx4 sx4])
    then have "(b mod 16) * 4 + 0 div 64 = (b' mod 16) * 4 + 0 div 64" by simp
    ultimately have "a = a' \<and> b = b' \<and> (0::nat) = 0"
      using ab(2) ab'(2) by (intro quad_inj) simp_all
    then show ?thesis using 3 by simp
  next
    case (4 a' b' c' r')
    have e: "encode [a, b] = encode (a' # b' # c' # r')" using "3.prems"(3) unfolding 4 .
    have "CHR ''='' = b64 (c' mod 64)" using arg_cong [OF e, of "\<lambda>l. l ! 3"] by simp
    then show ?thesis using b64_not_pad [OF sx6] by metis
  qed
next
  case (4 a b c r)
  have abc: "a < 256" "b < 256" "c < 256" and r: "\<forall>x \<in> set r. x < 256"
    using 4(2) by simp_all
  show ?case
  proof (cases ys rule: encode.cases)
    case 1
    with 4(4) show ?thesis by simp
  next
    case (2 a')
    have e: "encode (a # b # c # r) = encode [a']" using "4.prems"(3) unfolding 2 .
    have "b64 (c mod 64) = CHR ''=''" using arg_cong [OF e, of "\<lambda>l. l ! 3"] by simp
    then show ?thesis using b64_not_pad [OF sx6] by metis
  next
    case (3 a' b')
    have e: "encode (a # b # c # r) = encode [a', b']" using "4.prems"(3) unfolding 3 .
    have "b64 (c mod 64) = CHR ''=''" using arg_cong [OF e, of "\<lambda>l. l ! 3"] by simp
    then show ?thesis using b64_not_pad [OF sx6] by metis
  next
    case (4 a' b' c' r')
    have abc': "a' < 256" "b' < 256" "c' < 256" and r': "\<forall>x \<in> set r'. x < 256"
      using "4.prems"(2) 4 by simp_all
    have e: "encode (a # b # c # r) = encode (a' # b' # c' # r')"
      using "4.prems"(3) unfolding 4 .
    have e0: "b64 (a div 4) = b64 (a' div 4)" using arg_cong [OF e, of "\<lambda>l. l ! 0"] by simp
    have e1: "b64 ((a mod 4) * 16 + b div 16) = b64 ((a' mod 4) * 16 + b' div 16)"
      using arg_cong [OF e, of "\<lambda>l. l ! 1"] by simp
    have e2: "b64 ((b mod 16) * 4 + c div 64) = b64 ((b' mod 16) * 4 + c' div 64)"
      using arg_cong [OF e, of "\<lambda>l. l ! 2"] by simp
    have e3: "b64 (c mod 64) = b64 (c' mod 64)"
      using arg_cong [OF e, of "\<lambda>l. l ! 3"] by simp
    have er: "encode r = encode r'" using arg_cong [OF e, of "drop 4"] by simp
    have "a div 4 = a' div 4" by (rule b64_eqD [OF e0 sx1 [OF abc(1)] sx1 [OF abc'(1)]])
    moreover have "(a mod 4) * 16 + b div 16 = (a' mod 4) * 16 + b' div 16"
      by (rule b64_eqD [OF e1 sx3 [OF abc(2)] sx3 [OF abc'(2)]])
    moreover have "(b mod 16) * 4 + c div 64 = (b' mod 16) * 4 + c' div 64"
      by (rule b64_eqD [OF e2 sx5 [OF abc(3)] sx5 [OF abc'(3)]])
    moreover have "c mod 64 = c' mod 64" by (rule b64_eqD [OF e3 sx6 sx6])
    ultimately have "a = a' \<and> b = b' \<and> c = c'"
      using abc(2,3) abc'(2,3) by (intro quad_inj)
    moreover have "r = r'" using "4.IH" [OF r r' er] .
    ultimately show ?thesis using 4 by simp
  qed
qed

section \<open>Properties of the object stores\<close>

lemma getObject_SomeD: "getObject key xs k = Some r \<Longrightarrow> r \<in> set xs \<and> key r = k"
  by (auto simp: getObject_def find_Some_iff)

lemma getObject_None_iff: "getObject key xs k = None \<longleftrightarrow> (\<forall>r \<in> set xs. key r \<noteq> k)"
  by (auto simp: getObject_def find_None_iff)

lemma getObject_distinct:
  "distinct (map key xs) \<Longrightarrow> r \<in> set xs \<Longrightarrow> getObject key xs (key r) = Some r"
  by (induction xs) (auto simp: getObject_def)

lemma filter_key_unique:
  "distinct (map f xs) \<Longrightarrow> u \<in> set xs \<Longrightarrow> filter (\<lambda>r. f r = f u) xs = [u]"
proof (induction xs)
  case Nil
  then show ?case by simp
next
  case (Cons x xs)
  show ?case
  proof (cases "x = u")
    case True
    have "f u \<notin> f ` set xs" using Cons.prems(1) True by simp
    then have "\<forall>x \<in> set xs. f x \<noteq> f u" by (metis imageI)
    then have "filter (\<lambda>r. f r = f u) xs = []" by (simp add: filter_empty_conv)
    then show ?thesis using True by simp
  next
    case False
    then have u: "u \<in> set xs" using Cons.prems(2) by simp
    have "f x \<notin> f ` set xs" using Cons.prems(1) by simp
    then have "f x \<noteq> f u" using u by (metis imageI)
    then show ?thesis using Cons.IH Cons.prems(1) u by simp
  qed
qed

lemma first_sort_key_least:
  assumes "u \<in> set xs" "distinct (map f xs)" "\<forall>x \<in> set xs. f u \<le> f x"
  shows "first (sort_key f xs) = Some u"
proof -
  have "sort_key f xs \<noteq> []" using assms(1) by (metis empty_iff list.set(1) set_sort)
  then obtain h t where ht: "sort_key f xs = h # t" by (cases "sort_key f xs") auto
  have h: "h \<in> set xs" using ht by (metis list.set_intros(1) set_sort)
  have "sorted (map f (h # t))" using ht by (metis sorted_sort_key)
  then have le: "\<forall>y \<in> set t. f h \<le> f y" by simp
  have "u \<in> set (h # t)" using assms(1) ht by (metis set_sort)
  then have "f h \<le> f u" using le by auto
  moreover have "f u \<le> f h" using assms(3) h by simp
  ultimately have "f h = f u" by simp
  then have "h = u" using assms(1,2) h by (meson distinct_map inj_on_def)
  then show ?thesis using ht by (simp add: first_def)
qed

lemma map_replace_same:
  assumes "distinct (map key xs)" "r0 \<in> set xs" "key r = key r0" "f r = f r0"
  shows "map f (map (\<lambda>x. if key x = key r then r else x) xs) = map f xs"
proof -
  have "f (if key x = key r then r else x) = f x" if "x \<in> set xs" for x
  proof (cases "key x = key r")
    case True
    then have "x = r0" using assms(1,2,3) that by (metis distinct_map inj_on_def)
    then show ?thesis using True assms(4) by simp
  next
    case False
    then show ?thesis by simp
  qed
  then show ?thesis by simp
qed

lemma set_putObject: "set (putObject key xs r) \<subseteq> insert r (set xs)"
  by (auto simp: putObject_def set_insort_key)

lemma in_putObject: "r \<in> set (putObject key xs r)"
  by (auto simp: putObject_def set_insort_key)

lemma users_logActivity [simp]: "users (logActivity e a b c s) = users s"
  by (simp add: logActivity_def Let_def)

lemma putObject_replace_one:
  assumes "\<forall>x \<in> set pre. key x \<noteq> key a" "\<forall>x \<in> set post. key x \<noteq> key a" "key r = key a"
  shows "putObject key (pre @ a # post) r = pre @ r # post"
proof -
  have "map (\<lambda>x. if key x = key a then r else x) pre = pre"
    using assms(1) by (intro map_idI) simp
  moreover have "map (\<lambda>x. if key x = key a then r else x) post = post"
    using assms(2) by (intro map_idI) simp
  ultimately show ?thesis using assms(3) by (simp add: putObject_def)
qed

lemma getObject_replaced:
  assumes "r0 \<in> set xs" "key r = key r0"
  shows "getObject key (map (\<lambda>x. if key x = key r then r else x) xs) (key r) = Some r"
  using assms by (induction xs) (auto simp: getObject_def)

lemma of_char_le_255: "of_char c \<le> (255::nat)"
  using nat_of_char_less_256 [of c] by linarith

lemma btoa_utf16: "btoa (utf16 s) = Inr (encode (utf16 s))"
  by (simp add: btoa_def utf16_def not_less of_char_le_255)

lemma hashPassword_Inr_iff:
  "hashPassword p = Inr h \<longleftrightarrow> (\<forall>c \<in> set p. c < 256) \<and> h = encode (p @ utf16 ''nerist_salt'')"
proof -
  have 1: "255 < c \<longleftrightarrow> \<not> c < 256" for c :: nat by linarith
  have 2: "\<not> (\<exists>c \<in> set (utf16 ''nerist_salt''). 255 < c)"
    by (simp add: utf16_def not_less of_char_le_255)
  have "(\<exists>c \<in> set (p @ utf16 ''nerist_salt''). 255 < c) \<longleftrightarrow> \<not> (\<forall>c \<in> set p. c < 256)"
    using 2 by (auto simp: 1)
  then show ?thesis by (auto simp: hashPassword_def btoa_def)
qed

lemma hashPassword_inj:
  assumes "hashPassword p = Inr h" "hashPassword q = Inr h"
  shows "p = q"
proof -
  have p: "\<forall>c \<in> set (p @ utf16 ''nerist_salt''). c < 256"
    and q: "\<forall>c \<in> set (q @ utf16 ''nerist_salt''). c < 256"
    using assms of_char_le_255 by (auto simp: hashPassword_Inr_iff utf16_def less_Suc_eq_le)
  have "encode (p @ utf16 ''nerist_salt'') = encode (q @ utf16 ''nerist_salt'')"
    using assms by (simp add: hashPassword_Inr_iff)
  then have "p @ utf16 ''nerist_salt'' = q @ utf16 ''nerist_salt''"
    using encode_inj [OF p q] by simp
  then show ?thesis by simp
qed

lemma utf16_latin1: "c \<in> set (utf16 s) \<Longrightarrow> c < 256"
  using of_char_le_255 by (auto simp: utf16_def less_Suc_eq_le)

lemma utf16_eq_iff: "utf16 a = utf16 b \<longleftrightarrow> a = b"
  unfolding utf16_def by (rule inj_map_eq_map) (rule inj_of_char)

text \<open>\<^verbatim>\<open>generateToken\<close> returns exactly for an id of Latin-1 characters.\<close>

lemma btoa_Inr_iff: "btoa s = Inr t \<longleftrightarrow> (\<forall>c \<in> set s. c < 256) \<and> t = encode s"
proof -
  have "255 < c \<longleftrightarrow> \<not> c < 256" for c :: nat by linarith
  then show ?thesis by (auto simp: btoa_def)
qed

lemma generateToken_latin1:
  assumes "\<forall>c \<in> set userId. c < 256"
  shows "\<exists>t. generateToken e userId = Inr t"
proof -
  have "\<forall>c \<in> set (userId @ utf16 (''_'' @ decimal (now e) @ ''_'' @ take 13 (drop 2 (random36 e)))).
      c < 256"
    using assms utf16_latin1 by auto
  then obtain t where
    "btoa (userId @ utf16 (''_'' @ decimal (now e) @ ''_'' @ take 13 (drop 2 (random36 e)))) = Inr t"
    using btoa_Inr_iff by blast
  then show ?thesis by (simp add: generateToken_def)
qed

lemma generateToken_not_latin1:
  assumes "\<exists>c \<in> set userId. 255 < c"
  shows "generateToken e userId = Inl InvalidCharacterError"
  using assms by (auto simp: generateToken_def btoa_def)

section \<open>Identity workflow\<close>

lemma getUserByUsername_stored:
  assumes "users_ok (users s)" "u \<in> set (users s)"
  shows "getUserByUsername s (u_username u) = Some u"
proof (cases "u_username u = []")
  case True
  have "\<forall>x \<in> set (users s). u_username u \<le> u_username x" using True by simp
  then have "first (sort_key u_username (users s)) = Some u"
    using assms by (intro first_sort_key_least) (simp_all add: users_ok_def)
  then show ?thesis using True by (simp add: getUserByUsername_def getAllObjects_def truthy_def)
next
  case False
  have "filter (\<lambda>r. u_username r = u_username u) (users s) = [u]"
    using assms by (intro filter_key_unique) (simp_all add: users_ok_def)
  then show ?thesis
    using False by (simp add: getUserByUsername_def getAllObjects_def truthy_def first_def)
qed

lemma putUser_same_keys:
  assumes ok: "users_ok us" and u0: "u0 \<in> set us"
    and same: "u_id u = u_id u0" "u_username u = u_username u0" "u_email u = u_email u0"
  shows "putUser us u = Inr (map (\<lambda>x. if u_id x = u_id u then u else x) us)"
    and "users_ok (map (\<lambda>x. if u_id x = u_id u then u else x) us)"
    and "u \<in> set (map (\<lambda>x. if u_id x = u_id u then u else x) us)"
proof -
  have inj: "inj_on u_username (set us)" "inj_on u_email (set us)" "inj_on u_id (set us)"
    using ok by (simp_all add: users_ok_def distinct_map)
  have "u_username x \<noteq> u_username u \<and> u_email x \<noteq> u_email u"
    if "x \<in> set us" "u_id x \<noteq> u_id u" for x
  proof -
    have "x \<noteq> u0" using that(2) same(1) by auto
    then show ?thesis using inj(1,2) that(1) u0 same(2,3) by (metis inj_on_def)
  qed
  moreover have "\<exists>x \<in> set us. u_id x = u_id u" using u0 same(1) by auto
  ultimately show "putUser us u = Inr (map (\<lambda>x. if u_id x = u_id u then u else x) us)"
    by (auto simp: putUser_def putObject_def)
  have d: "distinct (map u_id us)" using ok by (simp add: users_ok_def)
  have m: "map u_id (map (\<lambda>x. if u_id x = u_id u then u else x) us) = map u_id us"
    "map u_username (map (\<lambda>x. if u_id x = u_id u then u else x) us) = map u_username us"
    "map u_email (map (\<lambda>x. if u_id x = u_id u then u else x) us) = map u_email us"
    by (rule map_replace_same [OF d u0 same(1) same(1)],
        rule map_replace_same [OF d u0 same(1) same(2)],
        rule map_replace_same [OF d u0 same(1) same(3)])
  show "users_ok (map (\<lambda>x. if u_id x = u_id u then u else x) us)"
    unfolding users_ok_def m using ok unfolding users_ok_def .
  show "u \<in> set (map (\<lambda>x. if u_id x = u_id u then u else x) us)"
    using u0 same(1) by (auto simp: image_iff)
qed

lemma login_ok:
  assumes ok: "users_ok (users s)" and u: "u \<in> set (users s)" and act: "u_isActive u"
    and pw: "hashPassword password = Inr (u_password u)"
    and lat: "\<forall>c \<in> set (u_id u). c < 256"
  shows "fst (login e (u_username u) password s) =
           Inr (withoutPassword (u \<lparr> u_lastLogin := Some (nowISO e) \<rparr>))"
proof -
  obtain t where t: "generateToken e (u_id u) = Inr t"
    using generateToken_latin1 [OF lat] by blast
  have put: "putUser (users s) (u \<lparr> u_lastLogin := Some (nowISO e) \<rparr>) =
      Inr (map (\<lambda>x. if u_id x = u_id u then u \<lparr> u_lastLogin := Some (nowISO e) \<rparr> else x) (users s))"
    using putUser_same_keys(1) [OF ok u, of "u \<lparr> u_lastLogin := Some (nowISO e) \<rparr>"] by simp
  show ?thesis
    using getUserByUsername_stored [OF ok u] act pw put t
    by (simp add: login_def createSession_def Let_def)
qed

lemma login_wrong_password:
  assumes ok: "users_ok (users s)" and u: "u \<in> set (users s)" and act: "u_isActive u"
    and pw: "hashPassword password = Inr h" and neq: "h \<noteq> u_password u"
  shows "login e (u_username u) password s = (Inl InvalidPassword, s)"
  using getUserByUsername_stored [OF ok u] act pw neq by (auto simp: login_def)

lemma login_deactivated:
  assumes ok: "users_ok (users s)" and u: "u \<in> set (users s)" and act: "\<not> u_isActive u"
  shows "login e (u_username u) password s = (Inl AccountDeactivated, s)"
  using getUserByUsername_stored [OF ok u] act by (simp add: login_def)

lemma changePassword_Inr:
  assumes ok: "users_ok (users s)" and get: "getUserById s userId = Some u"
    and cp: "fst (changePassword e userId oldPassword newPassword s) = Inr True"
  shows "hashPassword oldPassword = Inr (u_password u)"
    and "\<exists>h. hashPassword newPassword = Inr h \<and>
           users (snd (changePassword e userId oldPassword newPassword s)) =
             map (\<lambda>x. if u_id x = u_id u then u \<lparr> u_password := h \<rparr> else x) (users s)"
proof -
  have u: "u \<in> set (users s)" using get getObject_SomeD by (fastforce simp: getUserById_def)
  show old: "hashPassword oldPassword = Inr (u_password u)"
    using cp get by (auto simp: changePassword_def split: sum.splits if_splits)
  obtain h where h: "hashPassword newPassword = Inr h"
    using cp get old by (auto simp: changePassword_def split: sum.splits if_splits)
  have "putUser (users s) (u \<lparr> u_password := h \<rparr>) =
      Inr (map (\<lambda>x. if u_id x = u_id u then u \<lparr> u_password := h \<rparr> else x) (users s))"
    using putUser_same_keys(1) [OF ok u, of "u \<lparr> u_password := h \<rparr>"] by simp
  then show "\<exists>h. hashPassword newPassword = Inr h \<and>
           users (snd (changePassword e userId oldPassword newPassword s)) =
             map (\<lambda>x. if u_id x = u_id u then u \<lparr> u_password := h \<rparr> else x) (users s)"
    using get old h by (simp add: changePassword_def Let_def)
qed

lemma first_filter_putObject:
  assumes "P r" "\<forall>x \<in> set xs. \<not> P x"
  shows "first (filter P (putObject key xs r)) = Some r"
proof -
  have "r \<in> set (filter P (putObject key xs r))" using assms(1) in_putObject by simp
  then obtain h t where ht: "filter P (putObject key xs r) = h # t"
    by (cases "filter P (putObject key xs r)") auto
  have "h \<in> set (filter P (putObject key xs r))" using ht by simp
  then have "P h" "h \<in> insert r (set xs)" using set_putObject by fastforce+
  then have "h = r" using assms(2) by auto
  then show ?thesis using ht by (simp add: first_def)
qed

text \<open>
  Registration followed by login, for a password of Latin-1 characters: both succeed and
  both return the record the store holds, without the password.
\<close>

lemma register_then_login:
  assumes d: "d_username d = Some uname" "uname \<noteq> []" "d_password d = Some pw" "pw \<noteq> []"
      "d_email d = Some mail" "mail \<noteq> []" "d_role d = Some role" "role \<noteq> []"
    and fresh: "\<forall>x \<in> set (users s). u_username x \<noteq> uname \<and> u_email x \<noteq> mail"
    and latin1: "\<forall>c \<in> set pw. c < 256"
  shows "\<exists>u. fst (registerUser e d s) = Inr (withoutPassword u) \<and>
           u \<in> set (users (snd (registerUser e d s))) \<and> u_username u = uname \<and>
           fst (login e1 uname pw (snd (registerUser e d s))) =
             Inr (withoutPassword (u \<lparr> u_lastLogin := Some (nowISO e1) \<rparr>))"
proof -
  obtain h where h: "hashPassword pw = Inr h" using latin1 by (simp add: hashPassword_Inr_iff)
  define u where "u =
    \<lparr> u_id = utf16 (''user_'' @ decimal (now e) @ ''_'' @ take 9 (drop 2 (random36 e))),
      u_username = uname, u_email = mail, u_name = or_else (d_name d) uname, u_role = role,
      u_department = or_else (d_department d) [], u_year = or_else (d_year d) [],
      u_avatarColor = or_else (d_avatarColor d) ''primary'',
      u_emailPreferences = Some (case d_emailPreferences d of Some p \<Rightarrow> p
         | None \<Rightarrow> \<lparr> ep_attendance = True, ep_mess = True, ep_career = True, ep_alerts = True \<rparr>),
      u_notificationSettings = Some (case d_notificationSettings d of Some n \<Rightarrow> n
         | None \<Rightarrow> \<lparr> pushEnabled = True, soundEnabled = True, vibrationEnabled = True \<rparr>),
      u_createdAt = nowISO e, u_lastLogin = None, u_isActive = True, u_password = h \<rparr>"
  have uu: "u_username u = uname" "u_email u = mail" "u_isActive u" "u_password u = h"
    by (simp_all add: u_def)
  have none: "getUserByUsername s uname = None" "getUserByEmail s mail = None"
    using fresh d(2,6)
    by (simp_all add: getUserByUsername_def getUserByEmail_def getAllObjects_def truthy_def
        first_def filter_empty_conv [THEN iffD2])
  have put: "putUser (users s) u = Inr (putObject u_id (users s) u)"
    using fresh by (auto simp: putUser_def uu)
  have reg: "registerUser e d s =
      (Inr (withoutPassword u),
       logActivity e (u_id u) ''register'' ''User registered''
         (s \<lparr> users := putObject u_id (users s) u \<rparr>))"
    using d none h put unfolding u_def
    by (simp add: registerUser_def truthy_def Let_def)
  let ?s1 = "snd (registerUser e d s)"
  have us1: "users ?s1 = putObject u_id (users s) u" using reg by simp
  have get: "getUserByUsername ?s1 uname = Some u"
    unfolding getUserByUsername_def getAllObjects_def us1
    using first_filter_putObject [of "\<lambda>r. u_username r = uname" u "users s" u_id] fresh d(2) uu(1)
    by (simp add: truthy_def)
  have "\<forall>c \<in> set (u_id u). c < 256" using utf16_latin1 by (simp add: u_def)
  then obtain t where t: "generateToken e1 (u_id u) = Inr t"
    using generateToken_latin1 by blast
  have "u_username x \<noteq> uname \<and> u_email x \<noteq> mail"
    if "x \<in> set (putObject u_id (users s) u)" "u_id x \<noteq> u_id u" for x
    using that fresh set_putObject [of u_id "users s" u] by auto
  then have put1: "putUser (users ?s1) (u \<lparr> u_lastLogin := Some (nowISO e1) \<rparr>) =
      Inr (putObject u_id (users ?s1) (u \<lparr> u_lastLogin := Some (nowISO e1) \<rparr>))"
    unfolding us1 by (auto simp: putUser_def uu)
  have "fst (login e1 uname pw ?s1) = Inr (withoutPassword (u \<lparr> u_lastLogin := Some (nowISO e1) \<rparr>))"
    using get uu h put1 t by (simp add: login_def createSession_def Let_def)
  moreover have "u \<in> set (users ?s1)" unfolding us1 by (rule in_putObject)
  ultimately show ?thesis using reg uu(1) by auto
qed

text \<open>
  \<^verbatim>\<open>updateUserProfile\<close> drops a restricted field whose supplied value is truthy, and
  leaves the stored value of that field as it was.
\<close>

lemma spread_restrict_truthy:
  assumes "upd_id upd = None \<or> truthy (upd_id upd)"
    "upd_username upd = None \<or> truthy (upd_username upd)"
    "upd_role upd = None \<or> truthy (upd_role upd)"
    "upd_createdAt upd = None \<or> truthy (upd_createdAt upd)"
  shows "u_id (spread u (restrict upd)) = u_id u \<and>
         u_username (spread u (restrict upd)) = u_username u \<and>
         u_role (spread u (restrict upd)) = u_role u \<and>
         u_createdAt (spread u (restrict upd)) = u_createdAt u"
  using assms by (auto simp: spread_def restrict_def dropRestricted_def)

text \<open>
  Claim C1 says that registering a candidate with non-empty username, password, email and
  role, whose username and email are new, succeeds, and that a login with the same name
  and password then succeeds.  \<^verbatim>\<open>registerUser\<close> hashes the password with \<^verbatim>\<open>btoa\<close>,
  which throws on a code unit above 255: for the candidate \<open>ivan\<close>, whose password is a
  Cyrillic word, the registration fails with \<^verbatim>\<open>InvalidCharacterError\<close> and stores
  nothing, although every field is non-empty and neither the name nor the address is taken.
  For a password of Latin-1 characters the claim holds (\<open>register_then_login\<close>).
\<close>

theorem registerUser_cyrillic_password:
  "truthy (d_username ivan) \<and> truthy (d_password ivan) \<and> truthy (d_email ivan) \<and>
   truthy (d_role ivan) \<and>
   getUserByUsername seeded ''ivan'' = None \<and> getUserByEmail seeded ''ivan@nerist.ac.in'' = None \<and>
   registerUser env0 ivan seeded = (Inl InvalidCharacterError, seeded)"
  by (simp add: registerUser_def ivan_def no_userData_def truthy_def getUserByUsername_def
      getUserByEmail_def getAllObjects_def first_def seeded_def empty_backend_def
      student_001_def admin_001_def hashPassword_def btoa_def Let_def)

theorem registerUser_cyrillic_password_witness:
  "fst (registerUser env0 ivan seeded) = Inl InvalidCharacterError"
  using registerUser_cyrillic_password by simp

text \<open>
  Claim C9 says that \<^verbatim>\<open>updateUserProfile\<close> leaves id, username, role and createdAt as
  they were for every value supplied for them, the empty text included.  The code deletes
  a restricted field only when its value is truthy, so an empty role supplied for the
  seeded student is written to the store.  For truthy values the claim holds
  (\<open>spread_restrict_truthy\<close>).
\<close>

theorem updateUserProfile_empty_role:
  "u_role student_001 = ''student'' \<and>
   fst (updateUserProfile env0 (utf16 ''student_001'') (no_updates \<lparr> upd_role := Some [] \<rparr>) seeded) =
     Inr (withoutPassword (student_001 \<lparr> u_role := [] \<rparr>)) \<and>
   getUserById
     (snd (updateUserProfile env0 (utf16 ''student_001'') (no_updates \<lparr> upd_role := Some [] \<rparr>) seeded))
     (utf16 ''student_001'') = Some (student_001 \<lparr> u_role := [] \<rparr>)"
  by (simp add: updateUserProfile_def getUserById_def getObject_def seeded_def empty_backend_def
      student_001_def admin_001_def no_updates_def restrict_def dropRestricted_def truthy_def
      spread_def putUser_def putObject_def logActivity_def Let_def utf16_eq_iff)

theorem updateUserProfile_empty_role_witness:
  "getUserById
     (snd (updateUserProfile env0 (utf16 ''student_001'') (no_updates \<lparr> upd_role := Some [] \<rparr>) seeded))
     (utf16 ''student_001'') \<noteq> Some student_001"
  using updateUserProfile_empty_role by (simp add: student_001_def)

text \<open>
  Claim C10, as amended.  Let \<^verbatim>\<open>changePassword(userId, oldPassword, newPassword)\<close> have
  succeeded for a stored user.  If the user is active and the id has Latin-1 characters
  only, a login with the user's name and the new password succeeds and returns the stored
  record without the password.  If the user is active, a login with the old password, when
  it differs from the new one, fails with \<^verbatim>\<open>Invalid password\<close> and changes nothing.  If
  the user is deactivated, every login with the user's name fails with
  \<^verbatim>\<open>Account is deactivated\<close> and changes nothing.
\<close>

theorem changePassword_then_login:
  assumes ok: "users_ok (users s)" and get: "getUserById s userId = Some u"
    and cp: "fst (changePassword e userId oldPassword newPassword s) = Inr True"
  shows "(u_isActive u \<and> (\<forall>c \<in> set (u_id u). c < 256) \<longrightarrow>
           (\<exists>h. hashPassword newPassword = Inr h \<and>
              fst (login e1 (u_username u) newPassword
                    (snd (changePassword e userId oldPassword newPassword s))) =
                Inr (withoutPassword (u \<lparr> u_password := h, u_lastLogin := Some (nowISO e1) \<rparr>)))) \<and>
         (u_isActive u \<and> oldPassword \<noteq> newPassword \<longrightarrow>
            login e2 (u_username u) oldPassword
              (snd (changePassword e userId oldPassword newPassword s)) =
            (Inl InvalidPassword, snd (changePassword e userId oldPassword newPassword s))) \<and>
         (\<not> u_isActive u \<longrightarrow>
            login e3 (u_username u) password
              (snd (changePassword e userId oldPassword newPassword s)) =
            (Inl AccountDeactivated, snd (changePassword e userId oldPassword newPassword s)))"
proof -
  let ?s1 = "snd (changePassword e userId oldPassword newPassword s)"
  have u: "u \<in> set (users s)" using get getObject_SomeD by (fastforce simp: getUserById_def)
  have old: "hashPassword oldPassword = Inr (u_password u)"
    by (rule changePassword_Inr(1) [OF ok get cp])
  obtain h where h: "hashPassword newPassword = Inr h"
    and us1: "users ?s1 = map (\<lambda>x. if u_id x = u_id u then u \<lparr> u_password := h \<rparr> else x) (users s)"
    using changePassword_Inr(2) [OF ok get cp] by blast
  have ok1: "users_ok (users ?s1)" and u1: "u \<lparr> u_password := h \<rparr> \<in> set (users ?s1)"
    unfolding us1
    using putUser_same_keys(2,3) [OF ok u, of "u \<lparr> u_password := h \<rparr>"] by simp_all
  have 1: "fst (login e1 (u_username u) newPassword ?s1) =
      Inr (withoutPassword (u \<lparr> u_password := h, u_lastLogin := Some (nowISO e1) \<rparr>))"
    if "u_isActive u \<and> (\<forall>c \<in> set (u_id u). c < 256)"
    using login_ok [OF ok1 u1, of newPassword e1] that h by simp
  have 2: "login e2 (u_username u) oldPassword ?s1 = (Inl InvalidPassword, ?s1)"
    if "u_isActive u \<and> oldPassword \<noteq> newPassword"
  proof -
    have "u_password u \<noteq> h" using hashPassword_inj [OF old] h that by auto
    then show ?thesis
      using login_wrong_password [OF ok1 u1, of oldPassword "u_password u" e2] that old by simp
  qed
  have 3: "login e3 (u_username u) password ?s1 = (Inl AccountDeactivated, ?s1)"
    if "\<not> u_isActive u"
    using login_deactivated [OF ok1 u1, of e3 password] that by simp
  show ?thesis using 1 2 3 h by blast
qed

theorem changePassword_then_login_witness:
  "users_ok (users seeded) \<and> getUserById seeded (utf16 ''student_001'') = Some student_001 \<and>
   u_isActive student_001 \<and> list_all (\<lambda>c. c < 256) (u_id student_001) \<and>
   fst (changePassword env0 (utf16 ''student_001'') (utf16 ''demo123'') (utf16 ''newpass1'') seeded) =
     Inr True \<and>
   (\<exists>h. fst (login env0 ''NER20231045'' (utf16 ''newpass1'')
            (snd (changePassword env0 (utf16 ''student_001'') (utf16 ''demo123'') (utf16 ''newpass1'')
                   seeded))) =
          Inr (withoutPassword (student_001 \<lparr> u_password := h,
                 u_lastLogin := Some ''2023-11-14T22:13:20.000Z'' \<rparr>))) \<and>
   fst (login env0 ''NER20231045'' (utf16 ''demo123'')
         (snd (changePassword env0 (utf16 ''student_001'') (utf16 ''demo123'') (utf16 ''newpass1'')
                seeded))) =
     Inl InvalidPassword"
proof -
  have ok: "users_ok (users seeded)"
    by (simp add: users_ok_def seeded_def empty_backend_def student_001_def admin_001_def
        utf16_eq_iff)
  have get: "getUserById seeded (utf16 ''student_001'') = Some student_001"
    by (simp add: getUserById_def getObject_def seeded_def empty_backend_def student_001_def
        admin_001_def utf16_eq_iff)
  have act: "u_isActive student_001" by (simp add: student_001_def)
  have lat: "\<forall>c \<in> set (u_id student_001). c < 256"
    using utf16_latin1 by (simp add: student_001_def)
  have old: "hashPassword (utf16 ''demo123'') = Inr (u_password student_001)"
    by (simp add: hashPassword_def btoa_def utf16_def b64_def b64chars_def student_001_def)
  have new: "hashPassword (utf16 ''newpass1'') = Inr ''bmV3cGFzczFuZXJpc3Rfc2FsdA==''"
    by (simp add: hashPassword_def btoa_def utf16_def b64_def b64chars_def)
  have put: "putUser (users seeded) (student_001 \<lparr> u_password := ''bmV3cGFzczFuZXJpc3Rfc2FsdA=='' \<rparr>)
      = Inr [admin_001, student_001 \<lparr> u_password := ''bmV3cGFzczFuZXJpc3Rfc2FsdA=='' \<rparr>]"
    by (simp add: putUser_def putObject_def seeded_def empty_backend_def student_001_def
        admin_001_def utf16_eq_iff)
  have cp: "fst (changePassword env0 (utf16 ''student_001'') (utf16 ''demo123'') (utf16 ''newpass1'')
      seeded) = Inr True"
    using get old new put by (simp add: changePassword_def Let_def)
  have neq: "utf16 ''demo123'' \<noteq> utf16 ''newpass1''" by (simp add: utf16_eq_iff)
  have name: "u_username student_001 = ''NER20231045''" "nowISO env0 = ''2023-11-14T22:13:20.000Z''"
    by (simp_all add: student_001_def env0_def)
  show ?thesis
    using changePassword_then_login [OF ok get cp, of env0 env0] ok get act lat cp neq
    unfolding name list_all_iff by auto
qed

text \<open>
  Claim C10 as stated fails for a deactivated user: \<^verbatim>\<open>changePassword\<close> does not look at
  \<^verbatim>\<open>isActive\<close> and succeeds, and the login with the new password is refused with
  \<^verbatim>\<open>Account is deactivated\<close>.  It also fails for an active user whose id has a
  character outside Latin-1: the login with the new password passes the password check
  and then throws in \<^verbatim>\<open>generateToken\<close>.
\<close>

theorem changePassword_login_counterexample:
  "fst (changePassword env0 (utf16 ''student_001'') (utf16 ''demo123'') (utf16 ''newpass1'')
         seeded_deactivated) = Inr True \<and>
   fst (login env0 ''NER20231045'' (utf16 ''newpass1'')
         (snd (changePassword env0 (utf16 ''student_001'') (utf16 ''demo123'') (utf16 ''newpass1'')
                seeded_deactivated))) = Inl AccountDeactivated \<and>
   u_isActive student_cyrillic \<and>
   fst (changePassword env0 (u_id student_cyrillic) (utf16 ''demo123'') (utf16 ''newpass1'')
         seeded_cyrillic) = Inr True \<and>
   fst (login env0 ''NER20231045'' (utf16 ''newpass1'')
         (snd (changePassword env0 (u_id student_cyrillic) (utf16 ''demo123'') (utf16 ''newpass1'')
                seeded_cyrillic))) = Inl InvalidCharacterError"
proof -
  have old: "hashPassword (utf16 ''demo123'') = Inr ''ZGVtbzEyM25lcmlzdF9zYWx0''"
    by (simp add: hashPassword_def btoa_def utf16_def b64_def b64chars_def)
  have new: "hashPassword (utf16 ''newpass1'') = Inr ''bmV3cGFzczFuZXJpc3Rfc2FsdA==''"
    by (simp add: hashPassword_def btoa_def utf16_def b64_def b64chars_def)
  have 1: "fst (changePassword env0 (utf16 ''student_001'') (utf16 ''demo123'') (utf16 ''newpass1'')
         seeded_deactivated) = Inr True \<and>
     fst (login env0 ''NER20231045'' (utf16 ''newpass1'')
         (snd (changePassword env0 (utf16 ''student_001'') (utf16 ''demo123'') (utf16 ''newpass1'')
                seeded_deactivated))) = Inl AccountDeactivated"
    using old new
    by (simp add: changePassword_def login_def getUserById_def getUserByUsername_def
        getObject_def getAllObjects_def first_def truthy_def putUser_def putObject_def
        logActivity_def seeded_deactivated_def empty_backend_def student_001_def admin_001_def
        Let_def utf16_eq_iff)
  have tok: "generateToken env0 (u_id student_cyrillic) = Inl InvalidCharacterError"
    by (rule generateToken_not_latin1) (simp add: student_cyrillic_def)
  have id: "u_id student_cyrillic \<noteq> utf16 ''admin_001''"
    by (simp add: student_cyrillic_def utf16_def)
  have 2: "fst (changePassword env0 (u_id student_cyrillic) (utf16 ''demo123'') (utf16 ''newpass1'')
         seeded_cyrillic) = Inr True \<and>
     fst (login env0 ''NER20231045'' (utf16 ''newpass1'')
         (snd (changePassword env0 (u_id student_cyrillic) (utf16 ''demo123'') (utf16 ''newpass1'')
                seeded_cyrillic))) = Inl InvalidCharacterError"
    using old new tok id id [symmetric]
    by (simp add: changePassword_def login_def getUserById_def getUserByUsername_def
        getObject_def getAllObjects_def first_def truthy_def putUser_def putObject_def
        logActivity_def createSession_def seeded_cyrillic_def empty_backend_def
        student_cyrillic_def [unfolded student_001_def] admin_001_def Let_def)
  have 3: "u_isActive student_cyrillic" by (simp add: student_cyrillic_def student_001_def)
  show ?thesis using 1 2 3 by blast
qed

section \<open>Campus alerts and the sweep\<close>

lemma stillActive_iff:
  "stillActive t a \<longleftrightarrow> al_isActive a \<and> (\<forall>x. al_expiry a = Some x \<longrightarrow> t \<le> x)"
  by (auto simp: stillActive_def split: option.splits)







lemma sweep_suffix:
  assumes "distinct (map al_id (pre @ ys))"
  shows "foldl (sweepAlert t)
           (map (\<lambda>a. if expired t a then a \<lparr> al_isActive := False \<rparr> else a) pre @ ys) ys =
         map (\<lambda>a. if expired t a then a \<lparr> al_isActive := False \<rparr> else a) (pre @ ys)"
  using assms
proof (induction ys arbitrary: pre)
  case Nil
  then show ?case by simp
next
  case (Cons a ys)
  let ?g = "\<lambda>a. if expired t a then a \<lparr> al_isActive := False \<rparr> else a"
  have d: "distinct (map al_id ((pre @ [a]) @ ys))" using Cons.prems by simp
  have pre: "\<forall>x \<in> set (map ?g pre). al_id x \<noteq> al_id a"
    using Cons.prems by (auto simp: image_iff)
  have ys: "\<forall>x \<in> set ys. al_id x \<noteq> al_id a"
    using Cons.prems by (auto simp: image_iff)
  have "sweepAlert t (map ?g pre @ a # ys) a = map ?g pre @ ?g a # ys"
  proof (cases "expired t a")
    case True
    have "putObject al_id (map ?g pre @ a # ys) (a \<lparr> al_isActive := False \<rparr>) =
        map ?g pre @ a \<lparr> al_isActive := False \<rparr> # ys"
      by (rule putObject_replace_one [OF pre ys]) simp
    then show ?thesis using True by (simp only: sweepAlert_def if_True)
  next
    case False
    then show ?thesis by (simp only: sweepAlert_def if_False)
  qed
  then have "foldl (sweepAlert t) (map ?g pre @ a # ys) (a # ys) =
      foldl (sweepAlert t) (map ?g (pre @ [a]) @ ys) ys"
    by simp
  also have "\<dots> = map ?g ((pre @ [a]) @ ys)" by (rule Cons.IH [OF d])
  finally show ?case by simp
qed

lemma campusAlerts_performBackgroundSync:
  assumes "distinct (map al_id (campusAlerts s))"
  shows "campusAlerts (performBackgroundSync e s) =
         map (\<lambda>a. if expired (now e) a then a \<lparr> al_isActive := False \<rparr> else a) (campusAlerts s)"
  using sweep_suffix [of "[]" "campusAlerts s" "now e"] assms
  by (simp add: performBackgroundSync_def setSystemSetting_def getAllObjects_def Let_def)

lemma map_al_id_sweep:
  "map al_id (map (\<lambda>a. if P a then a \<lparr> al_isActive := False \<rparr> else a) xs) = map al_id xs"
  by (induction xs) simp_all

lemma sweep_twice:
  assumes "t \<le> t'"
  shows "(if expired t' (if expired t a then a \<lparr> al_isActive := False \<rparr> else a)
          then (if expired t a then a \<lparr> al_isActive := False \<rparr> else a) \<lparr> al_isActive := False \<rparr>
          else (if expired t a then a \<lparr> al_isActive := False \<rparr> else a)) =
         (if expired t' a then a \<lparr> al_isActive := False \<rparr> else a)"
  using assms by (auto simp: expired_def split: option.splits)

text \<open>
  Claim C6: one run of the sweep sets \<open>isActive\<close> to false in every alert that is active
  and whose expiry has elapsed, deletes no alert and leaves every other alert as it was
  (the store afterwards is the store before with exactly those alerts changed, in the same
  order), and a second run changes nothing more: at the same instant the store stays the
  same, and at a later instant two runs leave what one run at the later instant leaves.
\<close>

theorem performBackgroundSync_sweep:
  assumes "distinct (map al_id (campusAlerts s))"
  shows "campusAlerts (performBackgroundSync e s) =
           map (\<lambda>a. if expired (now e) a then a \<lparr> al_isActive := False \<rparr> else a)
             (campusAlerts s) \<and>
         campusAlerts (performBackgroundSync e (performBackgroundSync e s)) =
           campusAlerts (performBackgroundSync e s) \<and>
         (now e \<le> now e' \<longrightarrow>
            campusAlerts (performBackgroundSync e' (performBackgroundSync e s)) =
            campusAlerts (performBackgroundSync e' s))"
proof -
  let ?g = "\<lambda>t a. if expired t a then a \<lparr> al_isActive := False \<rparr> else a"
  have 1: "campusAlerts (performBackgroundSync e s) = map (?g (now e)) (campusAlerts s)"
    by (rule campusAlerts_performBackgroundSync [OF assms])
  have d: "distinct (map al_id (campusAlerts (performBackgroundSync e s)))"
    unfolding 1 map_al_id_sweep by (rule assms)
  have 2: "campusAlerts (performBackgroundSync e' (performBackgroundSync e s)) =
      campusAlerts (performBackgroundSync e' s)" if "now e \<le> now e'" for e'
  proof -
    have "campusAlerts (performBackgroundSync e' (performBackgroundSync e s)) =
        map (?g (now e')) (map (?g (now e)) (campusAlerts s))"
      using campusAlerts_performBackgroundSync [OF d, of e'] 1 by simp
    also have "\<dots> = map (?g (now e')) (campusAlerts s)"
      using sweep_twice [OF that] by (simp add: comp_def)
    also have "\<dots> = campusAlerts (performBackgroundSync e' s)"
      by (rule campusAlerts_performBackgroundSync [OF assms, symmetric])
    finally show ?thesis .
  qed
  show ?thesis using 1 2 [of e] 2 [of e'] by simp
qed

theorem performBackgroundSync_sweep_witness:
  "distinct (map al_id (campusAlerts with_alerts)) \<and>
   campusAlerts (performBackgroundSync env0 with_alerts) =
     [alert_exam, alert_water \<lparr> al_isActive := False \<rparr>, alert_fest] \<and>
   campusAlerts (performBackgroundSync env0 (performBackgroundSync env0 with_alerts)) =
     [alert_exam, alert_water \<lparr> al_isActive := False \<rparr>, alert_fest]"
proof -
  have d: "distinct (map al_id (campusAlerts with_alerts))"
    by (simp add: with_alerts_def alert_exam_def alert_water_def alert_fest_def)
  have x: "\<not> expired (now env0) alert_exam" "expired (now env0) alert_water"
    "\<not> expired (now env0) alert_fest"
    by (simp_all add: expired_def env0_def alert_exam_def alert_water_def alert_fest_def)
  show ?thesis
    using performBackgroundSync_sweep [OF d, of env0 env0] d x
    by (simp add: with_alerts_def)
qed





section \<open>Mess workflow\<close>

lemma putMenu_same_keys:
  assumes ok: "menus_ok ms" and m0: "m0 \<in> set ms"
    and same: "m_id m = m_id m0" "m_date m = m_date m0" "m_mealType m = m_mealType m0"
  shows "putMenu ms m = Inr (map (\<lambda>x. if m_id x = m_id m then m else x) ms)"
    and "menus_ok (map (\<lambda>x. if m_id x = m_id m then m else x) ms)"
proof -
  have inj: "inj_on (\<lambda>m. (m_date m, m_mealType m)) (set ms)"
    using ok by (simp add: menus_ok_def distinct_map)
  have "\<not> (m_date x = m_date m \<and> m_mealType x = m_mealType m)"
    if "x \<in> set ms" "m_id x \<noteq> m_id m" for x
  proof
    assume "m_date x = m_date m \<and> m_mealType x = m_mealType m"
    then have "(m_date x, m_mealType x) = (m_date m0, m_mealType m0)" using same by simp
    then have "x = m0" using inj that(1) m0 by (auto dest: inj_onD)
    then show False using that(2) same(1) by simp
  qed
  moreover have "\<exists>x \<in> set ms. m_id x = m_id m" using m0 same(1) by auto
  ultimately show "putMenu ms m = Inr (map (\<lambda>x. if m_id x = m_id m then m else x) ms)"
    by (auto simp: putMenu_def putObject_def)
  have d: "distinct (map m_id ms)" using ok by (simp add: menus_ok_def)
  have k: "(\<lambda>m. (m_date m, m_mealType m)) m = (\<lambda>m. (m_date m, m_mealType m)) m0"
    using same by simp
  have m: "map m_id (map (\<lambda>x. if m_id x = m_id m then m else x) ms) = map m_id ms"
    "map (\<lambda>m. (m_date m, m_mealType m)) (map (\<lambda>x. if m_id x = m_id m then m else x) ms) =
       map (\<lambda>m. (m_date m, m_mealType m)) ms"
    by (rule map_replace_same [OF d m0 same(1) same(1)],
        rule map_replace_same [OF d m0 same(1) k])
  show "menus_ok (map (\<lambda>x. if m_id x = m_id m then m else x) ms)"
    unfolding menus_ok_def m using ok unfolding menus_ok_def .
qed

lemma messMenu_logActivity [simp]: "messMenu (logActivity e a b c s) = messMenu s"
  by (simp add: logActivity_def Let_def)

lemma bookMeal_absent:
  "getObject m_id (messMenu s) (date @ ''_'' @ mealType) = None \<Longrightarrow>
   bookMeal e date mealType studentId s = (Inl MenuNotFound, s)"
  by (simp add: bookMeal_def)

lemma bookMeal_inactive:
  "getObject m_id (messMenu s) (date @ ''_'' @ mealType) = Some m \<Longrightarrow> \<not> m_active m \<Longrightarrow>
   bookMeal e date mealType studentId s = (Inl MealNotActive, s)"
  by (simp add: bookMeal_def)

lemma bookMeal_booked:
  "getObject m_id (messMenu s) (date @ ''_'' @ mealType) = Some m \<Longrightarrow> m_active m \<Longrightarrow>
   studentId \<in> b_studentId ` set (m_bookings m) \<Longrightarrow>
   bookMeal e date mealType studentId s = (Inl AlreadyBooked, s)"
  by (auto simp: bookMeal_def find_None_iff)

lemma bookMeal_fresh:
  fixes e :: env
  assumes ok: "menus_ok (messMenu s)"
    and get: "getObject m_id (messMenu s) (date @ ''_'' @ mealType) = Some m"
    and act: "m_active m" and fresh: "studentId \<notin> b_studentId ` set (m_bookings m)"
  defines "m1 \<equiv> m \<lparr> m_bookings := m_bookings m @ [\<lparr> b_studentId = studentId, b_bookedAt = nowISO e \<rparr>],
                     m_bookedCount := Some (Suc (length (m_bookings m))),
                     m_updatedAt := nowISO e \<rparr>"
  shows "fst (bookMeal e date mealType studentId s) = Inr m1"
    and "messMenu (snd (bookMeal e date mealType studentId s)) =
           map (\<lambda>x. if m_id x = m_id m then m1 else x) (messMenu s)"
proof -
  have m: "m \<in> set (messMenu s)" "m_id m = date @ ''_'' @ mealType"
    using getObject_SomeD [OF get] by simp_all
  have none: "find (\<lambda>b. b_studentId b = studentId) (m_bookings m) = None"
    using fresh by (auto simp: find_None_iff)
  have put: "putMenu (messMenu s) m1 = Inr (map (\<lambda>x. if m_id x = m_id m then m1 else x) (messMenu s))"
    using putMenu_same_keys(1) [OF ok m(1), of m1] by (simp add: m1_def)
  show "fst (bookMeal e date mealType studentId s) = Inr m1"
    using get act none put by (simp add: bookMeal_def Let_def m1_def)
  show "messMenu (snd (bookMeal e date mealType studentId s)) =
      map (\<lambda>x. if m_id x = m_id m then m1 else x) (messMenu s)"
    using get act none put by (simp add: bookMeal_def Let_def m1_def)
qed

text \<open>
  Claim C3, as amended: \<^verbatim>\<open>bookMeal\<close> on an absent menu fails with \<^verbatim>\<open>Menu not found\<close>
  and on an inactive menu with \<^verbatim>\<open>This meal is not active\<close>; for an active menu in whose
  bookings the student is not yet present, the first call succeeds, the stored menu then
  holds exactly one booking of the student and a \<open>bookedCount\<close> equal to the number of
  its bookings, and a second call with the same date, meal and student fails with
  \<^verbatim>\<open>Already booked for this meal\<close> and changes nothing.
\<close>

theorem bookMeal_twice:
  assumes ok: "menus_ok (messMenu s)"
  shows "(getObject m_id (messMenu s) (date @ ''_'' @ mealType) = None \<longrightarrow>
            bookMeal e date mealType studentId s = (Inl MenuNotFound, s)) \<and>
         (\<forall>m. getObject m_id (messMenu s) (date @ ''_'' @ mealType) = Some m \<and> \<not> m_active m \<longrightarrow>
            bookMeal e date mealType studentId s = (Inl MealNotActive, s)) \<and>
         (\<forall>m. getObject m_id (messMenu s) (date @ ''_'' @ mealType) = Some m \<and> m_active m \<and>
              studentId \<notin> b_studentId ` set (m_bookings m) \<longrightarrow>
            (\<exists>m1. fst (bookMeal e date mealType studentId s) = Inr m1 \<and>
               getObject m_id (messMenu (snd (bookMeal e date mealType studentId s)))
                 (date @ ''_'' @ mealType) = Some m1 \<and>
               m_bookings m1 = m_bookings m @ [\<lparr> b_studentId = studentId, b_bookedAt = nowISO e \<rparr>] \<and>
               length (filter (\<lambda>b. b_studentId b = studentId) (m_bookings m1)) = 1 \<and>
               m_bookedCount m1 = Some (length (m_bookings m1)) \<and>
               bookMeal e' date mealType studentId (snd (bookMeal e date mealType studentId s)) =
                 (Inl AlreadyBooked, snd (bookMeal e date mealType studentId s))))"
proof (intro conjI allI impI)
  show "bookMeal e date mealType studentId s = (Inl MenuNotFound, s)"
    if "getObject m_id (messMenu s) (date @ ''_'' @ mealType) = None"
    using that by (rule bookMeal_absent)
next
  fix m
  assume "getObject m_id (messMenu s) (date @ ''_'' @ mealType) = Some m \<and> \<not> m_active m"
  then show "bookMeal e date mealType studentId s = (Inl MealNotActive, s)"
    using bookMeal_inactive by blast
next
  fix m
  assume a: "getObject m_id (messMenu s) (date @ ''_'' @ mealType) = Some m \<and> m_active m \<and>
      studentId \<notin> b_studentId ` set (m_bookings m)"
  define m1 where "m1 = m \<lparr> m_bookings := m_bookings m @ [\<lparr> b_studentId = studentId, b_bookedAt = nowISO e \<rparr>],
                     m_bookedCount := Some (Suc (length (m_bookings m))),
                     m_updatedAt := nowISO e \<rparr>"
  let ?s1 = "snd (bookMeal e date mealType studentId s)"
  have get: "getObject m_id (messMenu s) (date @ ''_'' @ mealType) = Some m"
    and act: "m_active m" and fresh: "studentId \<notin> b_studentId ` set (m_bookings m)"
    using a by simp_all
  have m: "m \<in> set (messMenu s)" "m_id m = date @ ''_'' @ mealType"
    using getObject_SomeD [OF get] by simp_all
  have r: "fst (bookMeal e date mealType studentId s) = Inr m1"
    and ms: "messMenu ?s1 = map (\<lambda>x. if m_id x = m_id m then m1 else x) (messMenu s)"
    using bookMeal_fresh [OF ok get act fresh, of e] by (simp_all add: m1_def)
  have id1: "m_id m1 = m_id m" by (simp add: m1_def)
  have get1: "getObject m_id (messMenu ?s1) (date @ ''_'' @ mealType) = Some m1"
    using getObject_replaced [of m "messMenu s" m_id m1] m id1 ms by simp
  have one: "length (filter (\<lambda>b. b_studentId b = studentId) (m_bookings m1)) = 1"
  proof -
    have "filter (\<lambda>b. b_studentId b = studentId) (m_bookings m) = []"
      using fresh by (auto simp: filter_empty_conv)
    then show ?thesis by (simp add: m1_def)
  qed
  have again: "bookMeal e' date mealType studentId ?s1 = (Inl AlreadyBooked, ?s1)"
    by (rule bookMeal_booked [OF get1]) (simp_all add: m1_def act)
  show "\<exists>m1. fst (bookMeal e date mealType studentId s) = Inr m1 \<and>
      getObject m_id (messMenu ?s1) (date @ ''_'' @ mealType) = Some m1 \<and>
      m_bookings m1 = m_bookings m @ [\<lparr> b_studentId = studentId, b_bookedAt = nowISO e \<rparr>] \<and>
      length (filter (\<lambda>b. b_studentId b = studentId) (m_bookings m1)) = 1 \<and>
      m_bookedCount m1 = Some (length (m_bookings m1)) \<and>
      bookMeal e' date mealType studentId ?s1 = (Inl AlreadyBooked, ?s1)"
    using r get1 one again by (intro exI [of _ m1]) (simp add: m1_def)
qed

theorem bookMeal_twice_witness:
  "menus_ok (messMenu with_menus) \<and>
   bookMeal env0 ''2023-11-16'' ''lunch'' ''student_001'' with_menus = (Inl MenuNotFound, with_menus) \<and>
   bookMeal env0 ''2023-11-15'' ''breakfast'' ''student_001'' with_menus =
     (Inl MealNotActive, with_menus) \<and>
   (\<exists>m1. fst (bookMeal env0 ''2023-11-15'' ''lunch'' ''student_001'' with_menus) = Inr m1 \<and>
      m_bookings m1 = [\<lparr> b_studentId = ''student_001'', b_bookedAt = nowISO env0 \<rparr>] \<and>
      m_bookedCount m1 = Some 1 \<and>
      bookMeal env0 ''2023-11-15'' ''lunch'' ''student_001''
        (snd (bookMeal env0 ''2023-11-15'' ''lunch'' ''student_001'' with_menus)) =
      (Inl AlreadyBooked, snd (bookMeal env0 ''2023-11-15'' ''lunch'' ''student_001'' with_menus)))"
proof -
  have ok: "menus_ok (messMenu with_menus)"
    by (simp add: menus_ok_def with_menus_def lunch_def dinner_def breakfast_def)
  have g1: "getObject m_id (messMenu with_menus) (''2023-11-16'' @ ''_'' @ ''lunch'') = None"
    and g2: "getObject m_id (messMenu with_menus) (''2023-11-15'' @ ''_'' @ ''breakfast'') =
      Some breakfast"
    and g3: "getObject m_id (messMenu with_menus) (''2023-11-15'' @ ''_'' @ ''lunch'') = Some lunch"
    by (simp_all add: getObject_def with_menus_def lunch_def dinner_def breakfast_def)
  have p: "\<not> m_active breakfast" "m_active lunch" "m_bookings lunch = []"
    by (simp_all add: breakfast_def lunch_def)
  note t = bookMeal_twice [OF ok, where e = env0 and studentId = "''student_001''" and e' = env0]
  have "bookMeal env0 ''2023-11-16'' ''lunch'' ''student_001'' with_menus =
      (Inl MenuNotFound, with_menus)"
    using t [where date = "''2023-11-16''" and mealType = "''lunch''"] g1 by blast
  moreover have "bookMeal env0 ''2023-11-15'' ''breakfast'' ''student_001'' with_menus =
      (Inl MealNotActive, with_menus)"
    using t [where date = "''2023-11-15''" and mealType = "''breakfast''"] g2 p(1) by blast
  moreover have "\<exists>m1. fst (bookMeal env0 ''2023-11-15'' ''lunch'' ''student_001'' with_menus) = Inr m1 \<and>
      m_bookings m1 = [\<lparr> b_studentId = ''student_001'', b_bookedAt = nowISO env0 \<rparr>] \<and>
      m_bookedCount m1 = Some 1 \<and>
      bookMeal env0 ''2023-11-15'' ''lunch'' ''student_001''
        (snd (bookMeal env0 ''2023-11-15'' ''lunch'' ''student_001'' with_menus)) =
      (Inl AlreadyBooked, snd (bookMeal env0 ''2023-11-15'' ''lunch'' ''student_001'' with_menus))"
  proof -
    have "getObject m_id (messMenu with_menus) (''2023-11-15'' @ ''_'' @ ''lunch'') = Some lunch \<and>
        m_active lunch \<and> ''student_001'' \<notin> b_studentId ` set (m_bookings lunch)"
      using g3 p by simp
    then obtain m1 where
      "fst (bookMeal env0 ''2023-11-15'' ''lunch'' ''student_001'' with_menus) = Inr m1"
      "m_bookings m1 = m_bookings lunch @ [\<lparr> b_studentId = ''student_001'', b_bookedAt = nowISO env0 \<rparr>]"
      "m_bookedCount m1 = Some (length (m_bookings m1))"
      "bookMeal env0 ''2023-11-15'' ''lunch'' ''student_001''
        (snd (bookMeal env0 ''2023-11-15'' ''lunch'' ''student_001'' with_menus)) =
      (Inl AlreadyBooked, snd (bookMeal env0 ''2023-11-15'' ''lunch'' ''student_001'' with_menus))"
      using t [where date = "''2023-11-15''" and mealType = "''lunch''"] by blast
    then show ?thesis using p(3) by (intro exI [of _ m1]) simp
  qed
  ultimately show ?thesis using ok by blast
qed

text \<open>
  Claim C3 as stated says that the first of the two calls succeeds for every active menu.
  The student \<^verbatim>\<open>student_001\<close> is already in the bookings of the active menu \<open>dinner\<close>,
  and the first call fails with \<^verbatim>\<open>Already booked for this meal\<close>.
\<close>

theorem bookMeal_first_call_counterexample:
  "getObject m_id (messMenu with_menus) ''2023-11-15_dinner'' = Some dinner \<and> m_active dinner \<and>
   bookMeal env0 ''2023-11-15'' ''dinner'' ''student_001'' with_menus =
     (Inl AlreadyBooked, with_menus)"
  by (simp add: bookMeal_def getObject_def with_menus_def lunch_def dinner_def breakfast_def
      Let_def)

lemma submitMealFeedback_once:
  fixes e :: env and studentId comment :: string and rating :: rat
  assumes ok: "menus_ok (messMenu s)"
    and get: "getObject m_id (messMenu s) (date @ ''_'' @ mealType) = Some m"
  defines "fb \<equiv> m_feedback m @ [\<lparr> f_studentId = studentId, f_rating = rating,
                    f_comment = comment, f_submittedAt = nowISO e \<rparr>]"
  defines "m1 \<equiv> m \<lparr> m_feedback := fb, m_averageRating := Some (averageRating fb),
                     m_updatedAt := nowISO e \<rparr>"
  shows "fst (submitMealFeedback e date mealType studentId rating comment s) = Inr m1"
    and "getObject m_id
           (messMenu (snd (submitMealFeedback e date mealType studentId rating comment s)))
           (date @ ''_'' @ mealType) = Some m1"
    and "menus_ok (messMenu (snd (submitMealFeedback e date mealType studentId rating comment s)))"
proof -
  have m: "m \<in> set (messMenu s)" "m_id m = date @ ''_'' @ mealType"
    using getObject_SomeD [OF get] by simp_all
  have mean: "toFixed 1 (fdiv (foldl (\<lambda>sum f. fadd sum (f_rating f)) 0 fb) (of_nat (length fb))) =
      averageRating fb"
    by (simp add: averageRating_def foldl_map)
  have put: "putMenu (messMenu s) m1 = Inr (map (\<lambda>x. if m_id x = m_id m then m1 else x) (messMenu s))"
    and ok1: "menus_ok (map (\<lambda>x. if m_id x = m_id m then m1 else x) (messMenu s))"
    using putMenu_same_keys [OF ok m(1), of m1] by (simp_all add: m1_def)
  have len: "0 < length fb" by (simp add: fb_def)
  have run: "submitMealFeedback e date mealType studentId rating comment s =
      (Inr m1, logActivity e (utf16 studentId) ''meal_feedback'' (''Submitted feedback for '' @ mealType)
         (s \<lparr> messMenu := map (\<lambda>x. if m_id x = m_id m then m1 else x) (messMenu s) \<rparr>))"
    using get put len mean unfolding m1_def fb_def
    by (simp add: submitMealFeedback_def Let_def)
  show "fst (submitMealFeedback e date mealType studentId rating comment s) = Inr m1"
    using run by simp
  have id1: "m_id m1 = m_id m" by (simp add: m1_def)
  show "getObject m_id
      (messMenu (snd (submitMealFeedback e date mealType studentId rating comment s)))
      (date @ ''_'' @ mealType) = Some m1"
    using getObject_replaced [of m "messMenu s" m_id m1] m id1 run by simp
  show "menus_ok (messMenu (snd (submitMealFeedback e date mealType studentId rating comment s)))"
    using ok1 run by simp
qed

text \<open>
  For ratings that are whole numbers from 1 to 5 the value the code computes is a tenth
  nearest to the exact mean.
\<close>

lemma sum_list_le_length:
  fixes ks :: "int list"
  assumes "\<forall>k \<in> set ks. k \<le> c"
  shows "sum_list ks \<le> c * int (length ks)"
  using assms by (induction ks) (auto simp: algebra_simps)

lemma star_of_int: "star r \<Longrightarrow> of_int \<lfloor>r\<rfloor> = r \<and> 0 \<le> \<lfloor>r\<rfloor> \<and> \<lfloor>r\<rfloor> \<le> 5"
  by (auto simp: star_def)

lemma averageRating_nearest:
  assumes stars: "\<forall>f \<in> set fb. star (f_rating f)" and ne: "fb \<noteq> []"
    and len: "length fb < 2 ^ 40"
  shows "\<bar>of_int (averageRating fb) - mean fb * 10\<bar> \<le> 1 / 2"
proof -
  define ks where "ks = map (\<lambda>f. \<lfloor>f_rating f\<rfloor>) fb"
  have fl: "of_int \<lfloor>f_rating f\<rfloor> = f_rating f \<and> 0 \<le> \<lfloor>f_rating f\<rfloor> \<and> \<lfloor>f_rating f\<rfloor> \<le> 5"
    if "f \<in> set fb" for f
    using that stars by (intro star_of_int) blast
  have "map f_rating fb = map (\<lambda>f. of_int \<lfloor>f_rating f\<rfloor>) fb"
    by (rule map_cong [OF refl]) (simp only: fl)
  then have r: "map f_rating fb = map of_int ks" by (simp only: ks_def map_map comp_def)
  have k: "\<forall>k \<in> set ks. 0 \<le> k" "\<forall>k \<in> set ks. k \<le> 5"
    unfolding ks_def using fl by (simp_all only: set_map ball_simps) blast+
  have n: "length ks = length fb" by (simp add: ks_def)
  have "int (length fb) < int (2 ^ 40)" using len by (simp only: of_nat_less_iff)
  then have n40: "int (length fb) < 2 ^ 40" by simp
  have S: "sum_list ks \<le> 5 * int (length fb)" using sum_list_le_length [OF k(2)] n by simp
  have S0: "0 \<le> sum_list ks" using k(1) by (intro sum_list_nonneg) simp
  have "foldl (\<lambda>sum f. fadd sum (f_rating f)) 0 fb = foldl fadd (of_int 0) (map f_rating fb)"
    by (simp add: foldl_map)
  also have "\<dots> = of_int (0 + sum_list ks)"
    unfolding r using k(1) S n40 by (intro foldl_fadd_int) simp_all
  finally have total: "foldl (\<lambda>sum f. fadd sum (f_rating f)) 0 fb = of_int (sum_list ks)" by simp
  have avg: "averageRating fb = toFixed 1 (fl (of_int (sum_list ks) / of_int (int (length fb))))"
    by (simp add: averageRating_def total fdiv_def)
  have "\<bar>of_int (toFixed 1 (fl (of_int (sum_list ks) / of_int (int (length fb)))))
      - of_int (sum_list ks * 10 ^ 1) / of_int (int (length fb))\<bar> \<le> (1 / 2 :: rat)"
  proof (rule toFixed_fl_nearest [OF S0])
    show "0 < int (length fb)" using ne by simp
    show "sum_list ks * 10 ^ 1 < 2 ^ 52" using S n40 by simp
    have "(2::int) ^ 40 \<le> 2 ^ 1022" by (intro power_increasing) simp_all
    then show "int (length fb) < 2 ^ 1022" using n40 by linarith
  qed
  moreover have "mean fb * 10 = of_int (sum_list ks * 10 ^ 1) / of_int (int (length fb))"
    by (simp add: mean_def r sum_list_of_int)
  ultimately show ?thesis unfolding avg by simp
qed

text \<open>
  Claim C7, as amended.  For a stored menu whose ratings are whole numbers from 1 to 5,
  \<^verbatim>\<open>submitMealFeedback\<close> with such a rating appends one entry to the feedback list of the
  menu and stores with it an average computed from the whole stored list: the arithmetic
  mean of all ratings of the list rounded to one decimal, or, when the mean lies exactly
  halfway between two one-decimal values, possibly the lower of the two.  A second entry
  by the same student is accepted in the same way.
\<close>

theorem submitMealFeedback_average:
  assumes ok: "menus_ok (messMenu s)"
    and get: "getObject m_id (messMenu s) (date @ ''_'' @ mealType) = Some m"
    and stars: "\<forall>f \<in> set (m_feedback m). star (f_rating f)" "star rating" "star rating'"
    and len: "length (m_feedback m) < 2 ^ 32"
  shows "\<exists>m1. fst (submitMealFeedback e date mealType studentId rating comment s) = Inr m1 \<and>
           getObject m_id
             (messMenu (snd (submitMealFeedback e date mealType studentId rating comment s)))
             (date @ ''_'' @ mealType) = Some m1 \<and>
           m_feedback m1 = m_feedback m @
             [\<lparr> f_studentId = studentId, f_rating = rating, f_comment = comment,
                f_submittedAt = nowISO e \<rparr>] \<and>
           (\<exists>t. m_averageRating m1 = Some t \<and>
                (t = rounded 1 (mean (m_feedback m1)) \<or>
                 of_int t = mean (m_feedback m1) * 10 - 1 / 2)) \<and>
           (\<exists>m2. fst (submitMealFeedback e' date mealType studentId rating' comment'
                        (snd (submitMealFeedback e date mealType studentId rating comment s))) =
                   Inr m2 \<and>
              m_feedback m2 = m_feedback m1 @
                [\<lparr> f_studentId = studentId, f_rating = rating', f_comment = comment',
                   f_submittedAt = nowISO e' \<rparr>] \<and>
              (\<exists>t. m_averageRating m2 = Some t \<and>
                   (t = rounded 1 (mean (m_feedback m2)) \<or>
                    of_int t = mean (m_feedback m2) * 10 - 1 / 2)))"
proof -
  let ?s1 = "snd (submitMealFeedback e date mealType studentId rating comment s)"
  define fb1 where "fb1 = m_feedback m @
        [\<lparr> f_studentId = studentId, f_rating = rating, f_comment = comment,
           f_submittedAt = nowISO e \<rparr>]"
  define m1 where "m1 = m \<lparr> m_feedback := fb1, m_averageRating := Some (averageRating fb1),
      m_updatedAt := nowISO e \<rparr>"
  have r1: "fst (submitMealFeedback e date mealType studentId rating comment s) = Inr m1"
    and g1: "getObject m_id (messMenu ?s1) (date @ ''_'' @ mealType) = Some m1"
    and ok1: "menus_ok (messMenu ?s1)"
    using submitMealFeedback_once [OF ok get, where e = e and studentId = studentId and rating = rating
        and comment = comment]
    by (simp_all add: m1_def fb1_def)
  define fb2 where "fb2 = fb1 @
        [\<lparr> f_studentId = studentId, f_rating = rating', f_comment = comment',
           f_submittedAt = nowISO e' \<rparr>]"
  define m2 where "m2 = m1 \<lparr> m_feedback := fb2, m_averageRating := Some (averageRating fb2),
      m_updatedAt := nowISO e' \<rparr>"
  have f1: "m_feedback m1 = fb1" by (simp add: m1_def)
  have r2: "fst (submitMealFeedback e' date mealType studentId rating' comment' ?s1) = Inr m2"
    using submitMealFeedback_once(1) [OF ok1 g1, where e = e' and studentId = studentId
        and rating = rating' and comment = comment']
    by (simp add: m2_def fb2_def f1)
  have f2: "m_feedback m2 = fb2" by (simp add: m2_def)
  have "(2::nat) ^ 32 + 2 \<le> 2 ^ 40" by simp
  then have l: "length fb1 < 2 ^ 40" "length fb2 < 2 ^ 40"
    using len by (simp_all add: fb1_def fb2_def)
  have s1: "\<forall>f \<in> set fb1. star (f_rating f)" using stars(1,2) by (auto simp: fb1_def)
  have s2: "\<forall>f \<in> set fb2. star (f_rating f)" using s1 stars(3) by (auto simp: fb2_def)
  have n1: "averageRating fb1 = rounded 1 (mean fb1) \<or>
      of_int (averageRating fb1) = mean fb1 * 10 - 1 / 2"
    using nearest_cases [OF averageRating_nearest [OF s1 _ l(1)]]
    by (simp add: rounded_def fb1_def)
  have n2: "averageRating fb2 = rounded 1 (mean fb2) \<or>
      of_int (averageRating fb2) = mean fb2 * 10 - 1 / 2"
    using nearest_cases [OF averageRating_nearest [OF s2 _ l(2)]]
    by (simp add: rounded_def fb2_def)
  have a1: "\<exists>t. m_averageRating m1 = Some t \<and>
      (t = rounded 1 (mean (m_feedback m1)) \<or> of_int t = mean (m_feedback m1) * 10 - 1 / 2)"
    unfolding f1 using n1 by (simp add: m1_def)
  have a2: "\<exists>t. m_averageRating m2 = Some t \<and>
      (t = rounded 1 (mean (m_feedback m2)) \<or> of_int t = mean (m_feedback m2) * 10 - 1 / 2)"
    unfolding f2 using n2 by (simp add: m2_def)
  have "m_feedback m2 = m_feedback m1 @
      [\<lparr> f_studentId = studentId, f_rating = rating', f_comment = comment',
         f_submittedAt = nowISO e' \<rparr>]"
    unfolding f1 f2 by (simp add: fb2_def)
  then have "\<exists>m2. fst (submitMealFeedback e' date mealType studentId rating' comment' ?s1) = Inr m2 \<and>
      m_feedback m2 = m_feedback m1 @
        [\<lparr> f_studentId = studentId, f_rating = rating', f_comment = comment',
           f_submittedAt = nowISO e' \<rparr>] \<and>
      (\<exists>t. m_averageRating m2 = Some t \<and>
         (t = rounded 1 (mean (m_feedback m2)) \<or> of_int t = mean (m_feedback m2) * 10 - 1 / 2))"
    using r2 a2 by blast
  moreover have "m_feedback m1 = m_feedback m @
      [\<lparr> f_studentId = studentId, f_rating = rating, f_comment = comment,
         f_submittedAt = nowISO e \<rparr>]"
    unfolding f1 by (simp add: fb1_def)
  ultimately show ?thesis using r1 g1 a1 by blast
qed

lemma not_half: "of_int t \<noteq> (of_int k :: rat) - 1 / 2"
proof
  assume "of_int t = (of_int k :: rat) - 1 / 2"
  then have "(of_int (2 * t + 1) :: rat) = of_int (2 * k)" by simp
  then have "2 * t + 1 = 2 * k" by (simp only: of_int_eq_iff)
  then show False by presburger
qed

theorem submitMealFeedback_average_witness:
  "menus_ok (messMenu with_menus) \<and>
   getObject m_id (messMenu with_menus) (''2023-11-15'' @ ''_'' @ ''lunch'') = Some lunch \<and>
   (\<exists>m1. fst (submitMealFeedback env0 ''2023-11-15'' ''lunch'' ''student_001'' 4 ''good'' with_menus) =
           Inr m1 \<and>
      m_averageRating m1 = Some 40 \<and>
      (\<exists>m2. fst (submitMealFeedback env0 ''2023-11-15'' ''lunch'' ''student_001'' 5 ''better''
                   (snd (submitMealFeedback env0 ''2023-11-15'' ''lunch'' ''student_001'' 4 ''good''
                           with_menus))) = Inr m2 \<and>
         length (m_feedback m2) = 2 \<and> m_averageRating m2 = Some 45))"
proof -
  have ok: "menus_ok (messMenu with_menus)"
    by (simp add: menus_ok_def with_menus_def lunch_def dinner_def breakfast_def)
  have g: "getObject m_id (messMenu with_menus) (''2023-11-15'' @ ''_'' @ ''lunch'') = Some lunch"
    by (simp add: getObject_def with_menus_def lunch_def dinner_def breakfast_def)
  have l: "m_feedback lunch = []" by (simp add: lunch_def)
  have st: "\<forall>f \<in> set (m_feedback lunch). star (f_rating f)" "star 4" "star 5"
    "length (m_feedback lunch) < 2 ^ 32"
    by (simp_all add: l star_def)
  obtain m1 m2 t1 t2 where
    1: "fst (submitMealFeedback env0 ''2023-11-15'' ''lunch'' ''student_001'' 4 ''good'' with_menus) =
        Inr m1"
    "m_feedback m1 = m_feedback lunch @
       [\<lparr> f_studentId = ''student_001'', f_rating = 4, f_comment = ''good'',
          f_submittedAt = nowISO env0 \<rparr>]"
    "m_averageRating m1 = Some t1"
    "t1 = rounded 1 (mean (m_feedback m1)) \<or> of_int t1 = mean (m_feedback m1) * 10 - 1 / 2"
    and 2: "fst (submitMealFeedback env0 ''2023-11-15'' ''lunch'' ''student_001'' 5 ''better''
          (snd (submitMealFeedback env0 ''2023-11-15'' ''lunch'' ''student_001'' 4 ''good''
                  with_menus))) = Inr m2"
    "m_feedback m2 = m_feedback m1 @
       [\<lparr> f_studentId = ''student_001'', f_rating = 5, f_comment = ''better'',
          f_submittedAt = nowISO env0 \<rparr>]"
    "m_averageRating m2 = Some t2"
    "t2 = rounded 1 (mean (m_feedback m2)) \<or> of_int t2 = mean (m_feedback m2) * 10 - 1 / 2"
    using submitMealFeedback_average [OF ok g st, where e = env0 and studentId = "''student_001''"
        and comment = "''good''" and e' = env0 and comment' = "''better''"]
    by blast
  have "mean (m_feedback m1) * 10 = of_int 40" "rounded 1 (mean (m_feedback m1)) = 40"
    using 1(2) l by (simp_all add: mean_def rounded_def floor_rat_numeral)
  then have a1: "m_averageRating m1 = Some 40" using 1(3,4) not_half [of t1 40] by auto
  have "mean (m_feedback m2) * 10 = of_int 45" "rounded 1 (mean (m_feedback m2)) = 45"
    using 1(2) 2(2) l by (simp_all add: mean_def rounded_def floor_rat_numeral)
  then have a2: "m_averageRating m2 = Some 45" using 2(3,4) not_half [of t2 45] by auto
  have "length (m_feedback m2) = 2" using 1(2) 2(2) l by simp
  then show ?thesis using ok g 1(1) 2(1) a1 a2 by blast
qed

text \<open>
  Claim C7 as stated fails where the mean lies halfway between two one-decimal values and
  the quotient of the code, a double, lies below it.  After thirteen ratings of 4 and
  seven of 5 the mean is 4.35, which rounds to 4.4, and the code stores 4.3.
\<close>

lemma toFixed_87_20: "toFixed 1 (fdiv 87 20) = 43"
proof -
  have "fl (87 / 20) =
      of_int (roundTiesToEven (87 / 20 / 2 powi (2 - 52))) * 2 powi (2 - 52)"
    by (rule fl_eval) (simp_all add: power_int_minus)
  also have "roundTiesToEven (87 / 20 / 2 powi (2 - 52)) = 4897664594765414"
    by (simp add: roundTiesToEven_def Let_def power_int_minus floor_rat_numeral)
  finally have v: "fl (87 / 20) = 4897664594765414 * 2 powi (2 - 52)" by simp
  show ?thesis unfolding fdiv_def v by (simp add: toFixed_def power_int_minus floor_rat_numeral)
qed

theorem submitMealFeedback_tie_counterexample:
  "\<exists>m1. fst (submitMealFeedback env0 ''2023-11-15'' ''lunch'' ''student_20'' 5 [] with_rated_menu) =
          Inr m1 \<and>
        map f_rating (m_feedback m1) = replicate 13 4 @ replicate 7 5 \<and>
        mean (m_feedback m1) = 87 / 20 \<and>
        rounded 1 (mean (m_feedback m1)) = 44 \<and>
        m_averageRating m1 = Some 43"
proof -
  have ok: "menus_ok (messMenu with_rated_menu)"
    by (simp add: menus_ok_def with_rated_menu_def)
  have g: "getObject m_id (messMenu with_rated_menu) (''2023-11-15'' @ ''_'' @ ''lunch'') =
      Some lunch_rated"
    by (simp add: getObject_def with_rated_menu_def lunch_rated_def lunch_def)
  define fb where "fb = m_feedback lunch_rated @
      [\<lparr> f_studentId = ''student_20'', f_rating = 5, f_comment = [],
         f_submittedAt = nowISO env0 \<rparr>]"
  define m1 where "m1 = lunch_rated \<lparr> m_feedback := fb,
      m_averageRating := Some (averageRating fb), m_updatedAt := nowISO env0 \<rparr>"
  have r: "fst (submitMealFeedback env0 ''2023-11-15'' ''lunch'' ''student_20'' 5 [] with_rated_menu) =
      Inr m1"
    using submitMealFeedback_once(1) [OF ok g, where e = env0 and studentId = "''student_20''"
        and rating = 5 and comment = "[]"]
    by (simp add: m1_def fb_def)
  have m: "map f_rating (map (rated r) xs) = replicate (length xs) r" for r xs
    by (induction xs) (simp_all add: rated_def)
  have ap: "map f_rating (xs @ ys @ [x]) = map f_rating xs @ map f_rating ys @ [f_rating x]"
    for xs ys x
    by simp
  have "map f_rating (map (rated 4) [1..<14] @ map (rated 5) [14..<20] @ [x]) =
      replicate (length [1..<14::nat]) 4 @ replicate (length [14..<20::nat]) 5 @ [f_rating x]"
    for x
    by (simp only: ap m)
  moreover have "fb = map (rated 4) [1..<14] @ map (rated 5) [14..<20] @
      [\<lparr> f_studentId = ''student_20'', f_rating = 5, f_comment = [],
         f_submittedAt = nowISO env0 \<rparr>]"
    unfolding fb_def lunch_rated_def by simp
  ultimately have "map f_rating fb =
      replicate (length [1..<14::nat]) 4 @ replicate (length [14..<20::nat]) 5 @ [5]"
    by simp
  also have "\<dots> = replicate 13 4 @ replicate 7 5" by (simp add: eval_nat_numeral)
  finally have ratings: "map f_rating fb = replicate 13 4 @ replicate 7 5" .
  have sum: "sum_list (map f_rating fb) = 87" unfolding ratings by (simp add: sum_list_replicate)
  have len: "length fb = 20" using arg_cong [OF ratings, of length] by simp
  have mean: "mean fb = 87 / 20" by (simp add: mean_def sum len)
  have "foldl (\<lambda>sum f. fadd sum (f_rating f)) 0 fb = foldl fadd (of_int 0) (map of_int (replicate 13 4 @ replicate 7 5))"
    by (simp only: foldl_map [symmetric] ratings map_append map_replicate of_int_numeral of_int_0)
  also have "\<dots> = of_int (0 + sum_list (replicate 13 4 @ replicate 7 5))"
    by (rule foldl_fadd_int) (auto simp: sum_list_replicate)
  finally have total: "foldl (\<lambda>sum f. fadd sum (f_rating f)) 0 fb = 87"
    by (simp add: sum_list_replicate)
  have avg: "averageRating fb = 43"
    unfolding averageRating_def total len using toFixed_87_20 by simp
  have rd: "rounded 1 (mean fb) = 44" unfolding mean by (simp add: rounded_def floor_rat_numeral)
  have f: "m_feedback m1 = fb" "m_averageRating m1 = Some 43" by (simp_all add: m1_def avg)
  have "fst (submitMealFeedback env0 ''2023-11-15'' ''lunch'' ''student_20'' 5 [] with_rated_menu) =
          Inr m1 \<and>
        map f_rating (m_feedback m1) = replicate 13 4 @ replicate 7 5 \<and>
        mean (m_feedback m1) = 87 / 20 \<and>
        rounded 1 (mean (m_feedback m1)) = 44 \<and>
        m_averageRating m1 = Some 43"
    unfolding f using r ratings mean rd by blast
  then show ?thesis by (rule exI)
qed

section \<open>Attendance statistics\<close>

lemma getAllObjects_query:
  "q \<noteq> [] \<Longrightarrow> getAllObjects xs (Some ix) (Some q) = filter (\<lambda>r. ix r = q) xs"
  by (simp add: getAllObjects_def truthy_def)

lemma length_filter_sort_key: "length (filter P (sort_key f xs)) = length (filter P xs)"
  by (simp add: filter_sort)

lemma sort_key_Nil_iff: "sort_key f xs = [] \<longleftrightarrow> xs = []"
  by (metis length_0_conv length_sort)

lemma getAttendanceForStudent_all:
  "studentId \<noteq> [] \<Longrightarrow>
   getAttendanceForStudent s studentId None None =
     sort_key (\<lambda>a. - at_date a) (filter (\<lambda>a. at_studentId a = studentId) (attendance s))"
  by (simp add: getAttendanceForStudent_def getAllObjects_query)

lemma fdiv_3_4: "fdiv 3 4 = 3 / 4"
  using fl_exact [of 3 "- 2"] by (simp add: fdiv_def power_int_minus)

lemma fmul_75: "fmul (3 / 4) 100 = 75"
  using fl_of_int [of 75] by (simp add: fmul_def)

lemma percentage_3_of_4: "Math_round (fmul (fdiv 3 4) 100) = 75"
  by (simp add: fdiv_3_4 fmul_75 Math_round_def floor_rat_numeral)

text \<open>
  The percentage computed in JavaScript numbers is an integer nearest to the exact
  percentage, for fewer than \<open>2 ^ 32\<close> records.
\<close>

lemma percentage_nearest:
  fixes p t :: nat
  assumes t0: "0 < t" and pt: "p \<le> t" and t32: "t < 2 ^ 32"
  shows "\<bar>of_int (Math_round (fmul (fdiv (of_nat p) (of_nat t)) 100)) - 100 * of_nat p / of_nat t\<bar>
           \<le> (1 / 2 :: rat)"
proof (cases "p = 0")
  case True
  have "\<lfloor>1 / 2 :: rat\<rfloor> = 0" by (rule floor_unique) simp_all
  then show ?thesis using True by (simp add: fdiv_def fmul_def fl_def Math_round_def)
next
  case False
  define q :: rat where "q = of_nat p / of_nat t"
  define a where "a = fl q"
  define b where "b = a * 100"
  define y where "y = fl b"
  have tr: "(0::rat) < of_nat t" using t0 by simp
  have "(of_nat t :: rat) < of_nat (2 ^ 32)" using t32 by (simp only: of_nat_less_iff)
  then have tr32: "(of_nat t :: rat) < 4294967296" by simp
  have "(of_nat 1 :: rat) \<le> of_nat p" using False by simp
  then have p1: "(1::rat) \<le> of_nat p" by simp
  have "(of_nat p :: rat) \<le> of_nat t" using pt by (simp only: of_nat_le_iff)
  then have q1: "q \<le> 1" using tr by (simp add: q_def)
  have "1 / of_nat t \<le> q" using p1 tr by (simp add: q_def divide_right_mono)
  moreover have "1 / 4294967296 < 1 / (of_nat t :: rat)" using tr tr32 by (simp add: frac_less2)
  ultimately have q0: "1 / 4294967296 < q" by linarith
  have small: "(2::rat) powi (- 1022) \<le> 2 powi (- 32)" by (intro power_int_increasing) simp_all
  have p32: "(2::rat) powi (- 32) = 1 / 4294967296" by (simp add: power_int_minus)
  have p53: "(2::rat) powi (- 53) = 1 / 9007199254740992" by (simp add: power_int_minus)
  have "2 powi (- 1022) \<le> \<bar>q\<bar>" using small p32 q0 by linarith
  then have "\<bar>fl q - q\<bar> \<le> \<bar>q\<bar> * 2 powi (- 53)" by (rule fl_rel_error)
  moreover have "\<bar>q\<bar> * (1 / 9007199254740992) \<le> 1 * (1 / 9007199254740992)"
    using q0 q1 by (intro mult_right_mono) simp_all
  ultimately have e1: "\<bar>a - q\<bar> \<le> 1 / 9007199254740992" unfolding a_def p53 by linarith
  have b0: "1 / 4294967296 \<le> b" using e1 q0 unfolding b_def by linarith
  have b1: "b \<le> 101" using e1 q1 unfolding b_def by linarith
  have "2 powi (- 1022) \<le> \<bar>b\<bar>" using small p32 b0 by linarith
  then have "\<bar>fl b - b\<bar> \<le> \<bar>b\<bar> * 2 powi (- 53)" by (rule fl_rel_error)
  moreover have "\<bar>b\<bar> * (1 / 9007199254740992) \<le> 101 * (1 / 9007199254740992)"
    using b0 b1 by (intro mult_right_mono) simp_all
  ultimately have e2: "\<bar>y - b\<bar> \<le> 101 / 9007199254740992" unfolding y_def p53 by linarith
  have e: "\<bar>y - 100 * q\<bar> \<le> 201 / 9007199254740992" using e1 e2 unfolding b_def by linarith
  have x: "of_int (200 * int p) / of_int (2 * int t) = 100 * q"
    using tr by (simp add: q_def)
  have "(of_int (2 * int t) :: rat) < 8589934592" using tr32 by simp
  moreover have "(0::rat) < of_int (2 * int t)" using tr by simp
  ultimately have "1 / 8589934592 < 1 / (of_int (2 * int t) :: rat)" by (simp add: frac_less2)
  then have "\<bar>y - of_int (200 * int p) / of_int (2 * int t)\<bar> < 1 / of_int (2 * int t)"
    using e unfolding x by linarith
  then have "\<bar>of_int \<lfloor>y + 1 / 2\<rfloor> - of_int (200 * int p) / of_int (2 * int t)\<bar> \<le> (1 / 2 :: rat)"
    using t0 by (intro floor_perturb) simp_all
  then show ?thesis
    unfolding x by (simp add: Math_round_def y_def b_def a_def q_def fdiv_def fmul_def)
qed

lemma getAttendanceStats_eq:
  assumes "studentId \<noteq> []"
  shows "getAttendanceStats s studentId =
     (let recs = filter (\<lambda>a. at_studentId a = studentId) (attendance s);
          p = length (filter (\<lambda>a. at_status a = ''present'') recs)
      in \<lparr> total = length recs, present = p,
           absent = length (filter (\<lambda>a. at_status a = ''absent'') recs),
           late = length (filter (\<lambda>a. at_status a = ''late'') recs),
           percentage =
             (if recs = [] then 0
              else Math_round (fmul (fdiv (of_nat p) (of_nat (length recs))) 100)) \<rparr>)"
proof -
  define recs where "recs = filter (\<lambda>a. at_studentId a = studentId) (attendance s)"
  have A: "getAttendanceForStudent s studentId None None = sort_key (\<lambda>a. - at_date a) recs"
    using assms unfolding recs_def by (rule getAttendanceForStudent_all)
  show ?thesis
  proof (cases "recs = []")
    case True
    then show ?thesis
      unfolding Let_def recs_def [symmetric] by (simp add: getAttendanceStats_def A)
  next
    case False
    then show ?thesis
      unfolding Let_def recs_def [symmetric]
      by (simp add: getAttendanceStats_def A Let_def length_filter_sort_key sort_key_Nil_iff)
  qed
qed

text \<open>
  Claim C8, as amended.  For a student, whose identifier is not the empty text,
  \<open>getAttendanceStats\<close> returns, over the attendance records stored for that student:
  their number as \<open>total\<close>, the numbers of those with status present, absent and late, and
  as \<open>percentage\<close> the value of \<^verbatim>\<open>Math.round((present / total) * 100)\<close> in JavaScript
  numbers.  With fewer than \<open>2 ^ 32\<close> records that value is \<open>100 * present / total\<close>
  rounded to a whole number, or, when \<open>100 * present / total\<close> lies exactly halfway
  between two whole numbers, possibly the lower of the two.  With 3 records present out
  of 4 it is 75.  When the student has no record, the result is the all-zero object.
\<close>

theorem getAttendanceStats_counts:
  fixes s :: backend and studentId :: string
  defines "recs \<equiv> filter (\<lambda>a. at_studentId a = studentId) (attendance s)"
  defines "n \<equiv> \<lambda>st. length (filter (\<lambda>a. at_status a = st) recs)"
  assumes "studentId \<noteq> []"
  shows "getAttendanceStats s studentId =
           \<lparr> total = length recs, present = n ''present'', absent = n ''absent'',
             late = n ''late'',
             percentage =
               (if recs = [] then 0
                else Math_round (fmul (fdiv (of_nat (n ''present'')) (of_nat (length recs))) 100)) \<rparr>
         \<and> (recs = [] \<longrightarrow>
              getAttendanceStats s studentId =
                \<lparr> total = 0, present = 0, absent = 0, late = 0, percentage = 0 \<rparr>)
         \<and> (length recs = 4 \<and> n ''present'' = 3 \<longrightarrow>
              percentage (getAttendanceStats s studentId) = 75)
         \<and> (recs \<noteq> [] \<and> length recs < 2 ^ 32 \<longrightarrow>
              percentage (getAttendanceStats s studentId) =
                rounded 0 (of_nat (n ''present'') / of_nat (length recs) * 100) \<or>
              of_int (percentage (getAttendanceStats s studentId)) =
                (of_nat (n ''present'') / of_nat (length recs) * 100 :: rat) - 1 / 2)"
proof -
  have eq: "getAttendanceStats s studentId =
           \<lparr> total = length recs, present = n ''present'', absent = n ''absent'',
             late = n ''late'',
             percentage =
               (if recs = [] then 0
                else Math_round (fmul (fdiv (of_nat (n ''present'')) (of_nat (length recs))) 100)) \<rparr>"
    using getAttendanceStats_eq [OF assms(3), of s] by (simp add: Let_def recs_def n_def)
  have empty: "getAttendanceStats s studentId =
      \<lparr> total = 0, present = 0, absent = 0, late = 0, percentage = 0 \<rparr>" if "recs = []"
    unfolding eq using that by (simp add: n_def)
  have ex: "percentage (getAttendanceStats s studentId) = 75"
    if "length recs = 4 \<and> n ''present'' = 3"
  proof -
    have "recs \<noteq> []" using that by auto
    then show ?thesis unfolding eq using that by (simp add: percentage_3_of_4)
  qed
  have near: "percentage (getAttendanceStats s studentId) =
                rounded 0 (of_nat (n ''present'') / of_nat (length recs) * 100) \<or>
              of_int (percentage (getAttendanceStats s studentId)) =
                (of_nat (n ''present'') / of_nat (length recs) * 100 :: rat) - 1 / 2"
    if "recs \<noteq> [] \<and> length recs < 2 ^ 32"
  proof -
    have "n ''present'' \<le> length recs" unfolding n_def by (rule length_filter_le)
    moreover have "0 < length recs" using that by simp
    ultimately have "\<bar>of_int (Math_round (fmul (fdiv (of_nat (n ''present'')) (of_nat (length recs))) 100))
        - 100 * of_nat (n ''present'') / of_nat (length recs)\<bar> \<le> (1 / 2 :: rat)"
      using that by (intro percentage_nearest) simp_all
    note b = nearest_cases [OF this]
    have c: "(of_nat (n ''present'') / of_nat (length recs) * 100 :: rat) =
        100 * of_nat (n ''present'') / of_nat (length recs)"
      by simp
    have pe: "percentage (getAttendanceStats s studentId) =
        Math_round (fmul (fdiv (of_nat (n ''present'')) (of_nat (length recs))) 100)"
      unfolding eq using that by simp
    show ?thesis unfolding pe c rounded_def using b by simp
  qed
  show ?thesis using eq empty ex near by blast
qed

theorem getAttendanceStats_counts_witness:
  "getAttendanceStats with_attendance ''student_001'' =
     \<lparr> total = 4, present = 3, absent = 1, late = 0, percentage = 75 \<rparr>"
proof -
  have recs: "filter (\<lambda>a. at_studentId a = ''student_001'') (attendance with_attendance) =
      [mark 1 ''student_001'' 1699833600000 ''present'',
       mark 3 ''student_001'' 1699920000000 ''absent'',
       mark 4 ''student_001'' 1700006400000 ''present'',
       mark 5 ''student_001'' 1700092800000 ''present'']"
    by (simp add: with_attendance_def mark_def)
  note t = getAttendanceStats_counts [where s = with_attendance and studentId = "''student_001''"]
  have ne: "''student_001'' \<noteq> []" by simp
  have p: "percentage (getAttendanceStats with_attendance ''student_001'') = 75"
    using t [OF ne, THEN conjunct2, THEN conjunct2, THEN conjunct1]
    unfolding recs by (simp add: mark_def)
  have "total (getAttendanceStats with_attendance ''student_001'') = 4
      \<and> present (getAttendanceStats with_attendance ''student_001'') = 3
      \<and> absent (getAttendanceStats with_attendance ''student_001'') = 1
      \<and> late (getAttendanceStats with_attendance ''student_001'') = 0"
    unfolding t [OF ne, THEN conjunct1] recs by (simp add: mark_def)
  then show ?thesis using p by (cases "getAttendanceStats with_attendance ''student_001''") simp
qed

text \<open>
  Claim C8 as stated fails where \<open>100 * present / total\<close> lies halfway between two whole
  numbers and the product of the code, a double, lies below it.  For 23 records present
  out of 40 the exact value is 57.5, which rounds to 58, and the code returns 57.
\<close>

lemma percentage_23_of_40: "Math_round (fmul (fdiv 23 40) 100) = 57"
proof -
  have "fl (23 / 40) =
      of_int (roundTiesToEven (23 / 40 / 2 powi (- 1 - 52))) * 2 powi (- 1 - 52)"
    by (rule fl_eval) (simp_all add: power_int_minus)
  also have "roundTiesToEven (23 / 40 / 2 powi (- 1 - 52)) = 5179139571476070"
    by (simp add: roundTiesToEven_def Let_def power_int_minus floor_rat_numeral)
  finally have a: "fl (23 / 40) = 5179139571476070 * 2 powi (- 1 - 52)" by simp
  have "fl (5179139571476070 * 2 powi (- 1 - 52) * 100) =
      of_int (roundTiesToEven (5179139571476070 * 2 powi (- 1 - 52) * 100 / 2 powi (5 - 52)))
        * 2 powi (5 - 52)"
    by (rule fl_eval) (simp_all add: power_int_minus)
  also have "roundTiesToEven (5179139571476070 * 2 powi (- 1 - 52) * 100 / 2 powi (5 - 52)) =
      8092405580431359"
    by (simp add: roundTiesToEven_def Let_def power_int_minus floor_rat_numeral)
  finally have b: "fl (5179139571476070 * 2 powi (- 1 - 52) * 100) =
      8092405580431359 * 2 powi (5 - 52)" by simp
  show ?thesis
    unfolding fdiv_def fmul_def a b
    by (simp add: Math_round_def power_int_minus floor_rat_numeral)
qed

theorem getAttendanceStats_tie_counterexample:
  "total (getAttendanceStats with_term_attendance ''student_001'') = 40 \<and>
   present (getAttendanceStats with_term_attendance ''student_001'') = 23 \<and>
   rounded 0 (23 / 40 * 100) = 58 \<and>
   percentage (getAttendanceStats with_term_attendance ''student_001'') = 57"
proof -
  define f where "f = (\<lambda>i. mark i ''student_001'' (1699833600000 + 86400000 * int i)
                (if i \<le> 23 then ''present'' else ''absent''))"
  have att: "attendance with_term_attendance = map f [1..<41]"
    by (simp add: with_term_attendance_def f_def del: upt_rec_numeral)
  have sid: "(\<lambda>a. at_studentId a = ''student_001'') \<circ> f = (\<lambda>i. True)"
    by (rule ext) (simp add: f_def mark_def)
  have st: "(\<lambda>a. at_status a = ''present'') \<circ> f = (\<lambda>i. i \<le> 23)"
    "(\<lambda>a. at_status a = ''absent'') \<circ> f = (\<lambda>i. \<not> i \<le> 23)"
    "(\<lambda>a. at_status a = ''late'') \<circ> f = (\<lambda>i. False)"
    by (rule ext, simp add: f_def mark_def)+
  have recs: "filter (\<lambda>a. at_studentId a = ''student_001'') (attendance with_term_attendance) =
      map f [1..<41]"
    unfolding att filter_map sid by simp
  have c: "length (filter (\<lambda>i. i \<le> 23) [1..<41]) = (23::nat)" by code_simp
  have p: "length (filter (\<lambda>a. at_status a = ''present'') (map f [1..<41])) = 23"
    unfolding filter_map st length_map by (rule c)
  have ne: "''student_001'' \<noteq> []" by simp
  have "getAttendanceStats with_term_attendance ''student_001'' =
      \<lparr> total = 40, present = 23,
        absent = length (filter (\<lambda>a. at_status a = ''absent'') (map f [1..<41])),
        late = length (filter (\<lambda>a. at_status a = ''late'') (map f [1..<41])),
        percentage = 57 \<rparr>"
    unfolding getAttendanceStats_eq [OF ne] Let_def recs p
    using percentage_23_of_40 by (simp del: upt_rec_numeral)
  moreover have "rounded 0 (23 / 40 * 100) = 58" by (simp add: rounded_def floor_rat_numeral)
  ultimately show ?thesis by simp
qed

section \<open>Results and the CGPA\<close>




















end
